theory Spec2Isabelle
  imports Main "HOL-Library.Word" "HOL-Library.Sublist"
begin

section \<open>Base58 encoding (handlers.go)\<close>

text \<open>The Bitcoin-style alphabet of the source: no 0, O, I or l.\<close>

definition base58Alphabet :: string where
  "base58Alphabet = ''123456789ABCDEFGHJKLMNPQRSTUVWXYZabcdefghijkmnopqrstuvwxyz''"

text \<open>
  The loop of \<open>encodeBase58\<close>: while \<open>numCopy > 0\<close>, divide by 58 and prepend the
  symbol of the remainder. \<open>big.Int\<close> is unbounded, hence \<open>int\<close>.
\<close>

function encodeLoop :: "int \<Rightarrow> string \<Rightarrow> string" where
  "encodeLoop numCopy result =
     (if numCopy > 0
      then encodeLoop (numCopy div 58) (base58Alphabet ! nat (numCopy mod 58) # result)
      else result)"
  by pat_completeness auto
termination
  by (relation "measure (\<lambda>(n, r). nat n)") auto

declare encodeLoop.simps [simp del]

definition encodeBase58 :: "int \<Rightarrow> string" where
  "encodeBase58 num = (if num = 0 then ''1'' else encodeLoop num [])"

text \<open>\<open>padBase58\<close>: prepend the zero symbol while the code is shorter than \<open>minLength\<close>.\<close>

function padBase58 :: "string \<Rightarrow> int \<Rightarrow> string" where
  "padBase58 code minLength =
     (if int (length code) < minLength then padBase58 (CHR ''1'' # code) minLength else code)"
  by pat_completeness auto
termination
  by (relation "measure (\<lambda>(c, m). nat (m - int (length c)))") auto

declare padBase58.simps [simp del]


section \<open>Library functions the program calls\<close>

text \<open>
  Functions of the Go standard library that the source calls and does not define. They are
  parameters of the model: every theorem holds for whatever they compute. Time values are
  integers, \<open>*time.Time\<close> is an \<open>option\<close>.
\<close>

record stdlib =
  sha256Sum :: "string \<Rightarrow> 8 word list"
  urlParse :: "string \<Rightarrow> (string \<times> string) option"
  htmlEscape :: "string \<Rightarrow> string"
  utf8Decode :: "string \<Rightarrow> nat list"
  utf8Encode :: "nat list \<Rightarrow> string"
  utf8Valid :: "string \<Rightarrow> bool"
  trimSpace :: "string \<Rightarrow> string"
  toLower :: "string \<Rightarrow> string"
  parseRFC3339 :: "string \<Rightarrow> int option"
  parseDate :: "string \<Rightarrow> int option"
  endOfDay :: "int \<Rightarrow> int"
  addYears :: "int \<Rightarrow> int \<Rightarrow> int"
  formatRFC3339 :: "int \<Rightarrow> string"
  hexOfObjectID :: "nat \<Rightarrow> string"

section \<open>Data structures (handlers.go)\<close>

record ClickHistory =
  Timestamp :: int
  IP :: string
  UserAgent :: string

record ShortenRequest =
  sr_LongURL :: string
  sr_Custom :: string
  sr_Expires :: string
  sr_Domain :: string
  sr_Tags :: "string list"

text \<open>\<open>ID\<close> is the ObjectID, a natural number here; 0 is the zero ObjectID.\<close>

record URLData =
  ID :: nat
  ShortURL :: string
  LongURL :: string
  Domain :: string
  Tags :: "string list"
  UserID :: string
  CreatedAt :: int
  ExpiresAt :: "int option"
  Clicks :: int
  IsActive :: bool
  LastClicked :: "int option"
  ClickHistory :: "ClickHistory list"

record BulkURLRequest =
  bq_LongURL :: string
  bq_Domain :: string
  bq_CustomAlias :: string
  bq_Tags :: "string list"
  bq_Expires :: string

record BulkURLResult =
  br_LongURL :: string
  br_ShortURL :: string
  br_Domain :: string
  br_Tags :: "string list"
  br_Success :: bool
  br_Error :: string
  br_CreatedAt :: string

record BulkResponse =
  TotalProcessed :: int
  Successful :: int
  Failed :: int
  Results :: "BulkURLResult list"

record DemoURL =
  du_ID :: nat
  du_ShortURL :: string
  du_LongURL :: string
  du_Domain :: string
  du_CreatedAt :: int
  du_ExpiresAt :: int
  du_SessionID :: string

section \<open>The world a handler runs in\<close>

text \<open>
  \<open>connected\<close> is \<open>DB != nil && DB.Collection != nil\<close>; \<open>urls\<close> and \<open>demo_urls\<close> are the two
  MongoDB collections in insertion order; \<open>next_oid\<close> generates ObjectIDs; \<open>now\<close> is
  \<open>time.Now()\<close>; \<open>rand_draws\<close> and \<open>rand_pos\<close> are the global source of \<open>math/rand\<close>;
  \<open>db_fault\<close> says which store operations (counted by \<open>db_ops\<close>) fail with a timeout or a
  connection error; \<open>BASE_URL\<close> and \<open>ALLOW_LOCALHOST\<close> are the environment variables.
\<close>

record world =
  connected :: bool
  urls :: "URLData list"
  demo_urls :: "DemoURL list"
  next_oid :: nat
  now :: int
  rand_draws :: "nat \<Rightarrow> nat"
  rand_pos :: nat
  db_fault :: "nat \<Rightarrow> bool"
  db_ops :: nat
  BASE_URL :: string
  ALLOW_LOCALHOST :: string

datatype body = JSONURL URLData | JSONDemo DemoURL | Text string

text \<open>A handler answers with a status and a body, or panics on the nil \<open>DB\<close>.\<close>

datatype response = Response nat body | Panic

datatype 'a findres = Found 'a | ErrNoDocuments | ErrOther

section \<open>The store: MongoDB operations and the indexes of database.go\<close>

definition db_step :: "world \<Rightarrow> bool \<times> world" where
  "db_step w = (db_fault w (db_ops w), w\<lparr>db_ops := db_ops w + 1\<rparr>)"

definition FindOne :: "(URLData \<Rightarrow> bool) \<Rightarrow> world \<Rightarrow> URLData findres \<times> world" where
  "FindOne flt w =
     (case db_step w of (failed, w1) \<Rightarrow>
        if failed then (ErrOther, w1)
        else (case find flt (urls w1) of None \<Rightarrow> (ErrNoDocuments, w1) | Some d \<Rightarrow> (Found d, w1)))"

definition NewObjectID :: "world \<Rightarrow> nat \<times> world" where
  "NewObjectID w = (next_oid w, w\<lparr>next_oid := next_oid w + 1\<rparr>)"

text \<open>
  \<open>createIndexes\<close>: index 1 is unique on \<open>short_url\<close>; index 2 is unique on \<open>long_url\<close>,
  partial with filter \<open>is_active = true\<close>. The \<open>_id\<close> index of MongoDB is unique as well.
  \<open>indexes_admit d ds\<close>: the collection \<open>ds\<close> accepts the document \<open>d\<close>.
\<close>

definition shortURLIndex_admits :: "URLData \<Rightarrow> URLData list \<Rightarrow> bool" where
  "shortURLIndex_admits d ds = list_all (\<lambda>e. ShortURL e \<noteq> ShortURL d) ds"

definition longURLIndex_admits :: "URLData \<Rightarrow> URLData list \<Rightarrow> bool" where
  "longURLIndex_admits d ds =
     (if IsActive d then list_all (\<lambda>e. \<not> (IsActive e \<and> LongURL e = LongURL d)) ds else True)"

definition indexes_admit :: "URLData \<Rightarrow> URLData list \<Rightarrow> bool" where
  "indexes_admit d ds =
     (list_all (\<lambda>e. ID e \<noteq> ID d) ds \<and> shortURLIndex_admits d ds \<and> longURLIndex_admits d ds)"

text \<open>
  \<open>InsertOne\<close>: a document whose \<open>_id\<close> is the zero value (omitted by \<open>omitempty\<close>) gets a
  fresh ObjectID; a document the unique indexes reject is not inserted. The result is the
  inserted id, or \<open>None\<close> for an error.
\<close>

definition InsertOne :: "URLData \<Rightarrow> world \<Rightarrow> nat option \<times> world" where
  "InsertOne d w =
     (case db_step w of (failed, w1) \<Rightarrow>
        if failed then (None, w1)
        else (case (if ID d = 0 then NewObjectID w1 else (ID d, w1)) of (oid, w2) \<Rightarrow>
          let d' = d\<lparr>ID := oid\<rparr> in
          if indexes_admit d' (urls w2) then (Some oid, w2\<lparr>urls := urls w2 @ [d']\<rparr>)
          else (None, w2)))"

fun update_first :: "('a \<Rightarrow> bool) \<Rightarrow> ('a \<Rightarrow> 'a) \<Rightarrow> 'a list \<Rightarrow> 'a list" where
  "update_first flt upd [] = []"
| "update_first flt upd (d # ds) = (if flt d then upd d # ds else d # update_first flt upd ds)"

text \<open>\<open>UpdateOne\<close> applies the whole update document to the first match, atomically.\<close>

definition UpdateOne :: "(URLData \<Rightarrow> bool) \<Rightarrow> (URLData \<Rightarrow> URLData) \<Rightarrow> world \<Rightarrow> bool \<times> world" where
  "UpdateOne flt upd w =
     (case db_step w of (failed, w1) \<Rightarrow>
        if failed then (False, w1)
        else (True, w1\<lparr>urls := update_first flt upd (urls w1)\<rparr>))"

definition UpdateMany :: "(URLData \<Rightarrow> bool) \<Rightarrow> (URLData \<Rightarrow> URLData) \<Rightarrow> world \<Rightarrow> bool \<times> world" where
  "UpdateMany flt upd w =
     (case db_step w of (failed, w1) \<Rightarrow>
        if failed then (False, w1)
        else (True, w1\<lparr>urls := map (\<lambda>d. if flt d then upd d else d) (urls w1)\<rparr>))"

text \<open>\<open>CleanupExpiredURLs\<close> (database.go): expired active links become inactive.\<close>

definition CleanupExpiredURLs :: "world \<Rightarrow> bool \<times> world" where
  "CleanupExpiredURLs w =
     UpdateMany (\<lambda>d. (case ExpiresAt d of None \<Rightarrow> False | Some t \<Rightarrow> t \<le> now w) \<and> IsActive d)
       (\<lambda>d. d\<lparr>IsActive := False\<rparr>) w"

section \<open>Sanitization and validation (security.go)\<close>

text \<open>
  \<open>sanitizeInput\<close>: escape HTML, drop NUL bytes, keep the runes that are newline, tab,
  carriage return or at least 32 and not 127, trim.
\<close>

definition sanitizeInput :: "stdlib \<Rightarrow> string \<Rightarrow> string" where
  "sanitizeInput L input =
     (let escaped = htmlEscape L input;
          noNul = filter (\<lambda>c. of_char c \<noteq> (0::nat)) escaped;
          kept = filter (\<lambda>r. r = 10 \<or> r = 9 \<or> r = 13 \<or> (r \<ge> 32 \<and> r \<noteq> 127)) (utf8Decode L noNul)
      in trimSpace L (utf8Encode L kept))"

definition sanitizeStringSlice :: "stdlib \<Rightarrow> string list \<Rightarrow> string list" where
  "sanitizeStringSlice L input = map (sanitizeInput L) input"

fun strContains :: "string \<Rightarrow> string \<Rightarrow> bool" where
  "strContains [] sub = (sub = [])"
| "strContains (c # cs) sub = (prefix sub (c # cs) \<or> strContains cs sub)"

text \<open>\<open>urlParse\<close> gives the scheme and the host of a URL, or \<open>None\<close> for a parse error.\<close>

definition validateURL :: "stdlib \<Rightarrow> world \<Rightarrow> string \<Rightarrow> bool" where
  "validateURL L w longURL =
     (case urlParse L longURL of
        None \<Rightarrow> False
      | Some (scheme, host) \<Rightarrow>
          if scheme \<noteq> ''http'' \<and> scheme \<noteq> ''https'' then False
          else if length longURL > 2048 \<or> length longURL < 10 then False
          else if host = [] then False
          else
            let hostname = toLower L host;
                allowLocalhost = (ALLOW_LOCALHOST w = ''true'')
            in if (\<not> allowLocalhost \<and> strContains hostname ''localhost'')
                  \<or> strContains hostname ''127.0.0.1''
                  \<or> strContains hostname ''0.0.0.0''
                  \<or> prefix ''192.168.'' hostname
                  \<or> prefix ''10.'' hostname
               then False
               else if \<not> utf8Valid L longURL then False
               else True)"

definition customChar :: "char \<Rightarrow> bool" where
  "customChar c =
     (let n = (of_char c :: nat)
      in (97 \<le> n \<and> n \<le> 122) \<or> (65 \<le> n \<and> n \<le> 90) \<or> (48 \<le> n \<and> n \<le> 57)
         \<or> c = CHR ''_'' \<or> c = CHR ''-'')"

text \<open>The regular expression \<open>^[a-zA-Z0-9_-]{3,20}$\<close>, written out.\<close>

definition validateCustomURL :: "stdlib \<Rightarrow> string \<Rightarrow> bool" where
  "validateCustomURL L custom =
     (if custom = [] then True
      else (3 \<le> length custom \<and> length custom \<le> 20 \<and> list_all customChar custom)
           \<and> utf8Valid L custom)"

section \<open>Code generation (handlers.go)\<close>

text \<open>\<open>rand.Intn(n)\<close> on the global source.\<close>

definition Intn :: "nat \<Rightarrow> world \<Rightarrow> nat \<times> world" where
  "Intn n w = (rand_draws w (rand_pos w) mod n, w\<lparr>rand_pos := rand_pos w + 1\<rparr>)"

fun generateBase58Suffix :: "nat \<Rightarrow> world \<Rightarrow> string \<times> world" where
  "generateBase58Suffix 0 w = ([], w)"
| "generateBase58Suffix (Suc n) w =
     (case Intn 58 w of (k, w1) \<Rightarrow>
        case generateBase58Suffix n w1 of (rest, w2) \<Rightarrow> (base58Alphabet ! k # rest, w2))"

text \<open>\<open>big.Int.SetBytes\<close>: the bytes as a big-endian unsigned integer.\<close>

definition setBytes :: "8 word list \<Rightarrow> int" where
  "setBytes bs = foldl (\<lambda>acc b. acc * 256 + uint b) 0 bs"

text \<open>
  The first part of \<open>generateReadableCode\<close>, up to the truncation: the value of the
  variable \<open>base58Code\<close> before the store is consulted.
\<close>

definition base58Code :: "stdlib \<Rightarrow> string \<Rightarrow> string" where
  "base58Code L longURL =
     (let hash = sha256Sum L longURL;
          hashInt = setBytes (take 8 hash);
          code = encodeBase58 hashInt;
          code = (if length code < 6 then padBase58 code 6 else code);
          code = (if length code > 10 then take 10 code else code)
      in code)"

text \<open>
  The second part: the random fallback without a database, the existence check, and
  one random suffix of 2 characters when the code exists or the check fails.
\<close>

definition generateReadableCode :: "stdlib \<Rightarrow> string \<Rightarrow> world \<Rightarrow> string \<times> world" where
  "generateReadableCode L longURL w =
     (let code = base58Code L longURL in
      if \<not> connected w then generateBase58Suffix 7 w
      else (case FindOne (\<lambda>d. ShortURL d = code) w of
              (ErrNoDocuments, w1) \<Rightarrow> (code, w1)
            | (ErrOther, w1) \<Rightarrow>
                (case generateBase58Suffix 2 w1 of (sfx, w2) \<Rightarrow> (code @ sfx, w2))
            | (Found existing, w1) \<Rightarrow>
                (case generateBase58Suffix 2 w1 of (sfx, w2) \<Rightarrow> (code @ sfx, w2))))"

section \<open>Single creation: the handler \<open>shorten\<close>\<close>

definition StatusOK :: nat where "StatusOK = 200"
definition StatusCreated :: nat where "StatusCreated = 201"
definition StatusMovedPermanently :: nat where "StatusMovedPermanently = 301"
definition StatusBadRequest :: nat where "StatusBadRequest = 400"
definition StatusForbidden :: nat where "StatusForbidden = 403"
definition StatusNotFound :: nat where "StatusNotFound = 404"
definition StatusConflict :: nat where "StatusConflict = 409"
definition StatusInternalServerError :: nat where "StatusInternalServerError = 500"

text \<open>The filter of the deduplication lookup: long URL, domain, user, active.\<close>

definition existingFilter :: "string \<Rightarrow> string \<Rightarrow> string \<Rightarrow> URLData \<Rightarrow> bool" where
  "existingFilter longURL domain userID d =
     (LongURL d = longURL \<and> Domain d = domain \<and> UserID d = userID \<and> IsActive d)"

text \<open>
  The collision check of \<open>shorten\<close> and the insert after it: a code found in the
  collection gets one random suffix of 2 characters, and the document is inserted with no
  further lookup.
\<close>

definition checkAndInsert :: "URLData \<Rightarrow> world \<Rightarrow> response \<times> world" where
  "checkAndInsert urlData w =
     (case FindOne (\<lambda>d. ShortURL d = ShortURL urlData) w of
        (ErrOther, w1) \<Rightarrow> (Response StatusInternalServerError (Text ''database error''), w1)
      | (r, w1) \<Rightarrow>
        (case (case r of
                 Found existingShort \<Rightarrow>
                   (case generateBase58Suffix 2 w1 of
                      (sfx, w2) \<Rightarrow> (urlData\<lparr>ShortURL := ShortURL urlData @ sfx\<rparr>, w2))
               | _ \<Rightarrow> (urlData, w1)) of
           (urlData1, w2) \<Rightarrow>
           (case InsertOne urlData1 w2 of
              (None, w3) \<Rightarrow>
                (Response StatusInternalServerError (Text ''failed to create short URL''), w3)
            | (Some oid, w3) \<Rightarrow>
                (Response StatusCreated (JSONURL (urlData1\<lparr>ID := oid\<rparr>)), w3))))"

text \<open>
  \<open>shorten\<close> on the decoded request (\<open>None\<close>: the JSON does not decode). The steps follow
  the source: sanitize, default the domain, validate, look for an existing link, take the
  custom code or generate one, parse the expiry, check the code once more, insert.
\<close>

definition shorten :: "stdlib \<Rightarrow> string \<Rightarrow> ShortenRequest option \<Rightarrow> world \<Rightarrow> response \<times> world" where
  "shorten L userID decoded w =
     (case decoded of
        None \<Rightarrow> (Response StatusBadRequest (Text ''invalid JSON payload''), w)
      | Some req \<Rightarrow>
        let longURL = sanitizeInput L (sr_LongURL req);
            custom = sanitizeInput L (sr_Custom req);
            expires = sanitizeInput L (sr_Expires req);
            domain0 = sanitizeInput L (sr_Domain req);
            tags = sanitizeStringSlice L (sr_Tags req);
            domain = (if domain0 = [] then BASE_URL w else domain0)
        in
        if \<not> validateURL L w longURL then
          (Response StatusBadRequest (Text ''Invalid URL format. Must be a valid HTTP or HTTPS URL (no localhost/internal IPs)''), w)
        else if domain \<noteq> [] \<and> \<not> validateURL L w domain then
          (Response StatusBadRequest (Text ''Invalid domain format. Must be a valid HTTP or HTTPS URL (no localhost/internal IPs)''), w)
        else if custom \<noteq> [] \<and> \<not> validateCustomURL L custom then
          (Response StatusBadRequest (Text ''Custom URL must be 3-20 characters, alphanumeric with hyphens/underscores only''), w)
        else if \<not> connected w then (Panic, w)
        else
        (case FindOne (existingFilter longURL domain userID) w of
           (Found existingURL, w1) \<Rightarrow> (Response StatusOK (JSONURL existingURL), w1)
         | (ErrOther, w1) \<Rightarrow> (Response StatusInternalServerError (Text ''database error''), w1)
         | (ErrNoDocuments, w1) \<Rightarrow>
           (case (if custom = [] then generateReadableCode L longURL w1 else (custom, w1)) of
              (code, w2) \<Rightarrow>
              (case (if expires \<noteq> []
                     then (case parseRFC3339 L expires of Some t \<Rightarrow> Inr (Some t) | None \<Rightarrow> Inl ())
                     else Inr (Some (addYears L (now w2) 5))) of
                 Inl _ \<Rightarrow>
                   (Response StatusBadRequest (Text ''invalid expires format, use RFC3339 (e.g., 2025-12-31T23:59:59Z)''), w2)
               | Inr expiresAt \<Rightarrow>
                   checkAndInsert
                     \<lparr>ID = 0, ShortURL = code, LongURL = longURL, Domain = domain,
                      Tags = tags, UserID = userID, CreatedAt = now w2,
                      ExpiresAt = expiresAt, Clicks = 0, IsActive = True,
                      LastClicked = None, ClickHistory = []\<rparr> w2))))"

section \<open>The demo collection (unnamed/part_003, demo_ttl_index.go)\<close>

record DemoRequest =
  dq_LongURL :: string
  dq_Domain :: string

definition CountDocumentsDemo :: "(DemoURL \<Rightarrow> bool) \<Rightarrow> world \<Rightarrow> nat option \<times> world" where
  "CountDocumentsDemo flt w =
     (case db_step w of (failed, w1) \<Rightarrow>
        if failed then (None, w1) else (Some (length (filter flt (demo_urls w1))), w1))"

definition FindOneDemo :: "(DemoURL \<Rightarrow> bool) \<Rightarrow> world \<Rightarrow> DemoURL findres \<times> world" where
  "FindOneDemo flt w =
     (case db_step w of (failed, w1) \<Rightarrow>
        if failed then (ErrOther, w1)
        else (case find flt (demo_urls w1) of None \<Rightarrow> (ErrNoDocuments, w1) | Some d \<Rightarrow> (Found d, w1)))"

text \<open>The demo collection has no unique index besides \<open>_id\<close>.\<close>

definition InsertOneDemo :: "DemoURL \<Rightarrow> world \<Rightarrow> nat option \<times> world" where
  "InsertOneDemo d w =
     (case db_step w of (failed, w1) \<Rightarrow>
        if failed then (None, w1)
        else (case (if du_ID d = 0 then NewObjectID w1 else (du_ID d, w1)) of (oid, w2) \<Rightarrow>
          if list_all (\<lambda>e. du_ID e \<noteq> oid) (demo_urls w2)
          then (Some oid, w2\<lparr>demo_urls := demo_urls w2 @ [d\<lparr>du_ID := oid\<rparr>]\<rparr>)
          else (None, w2)))"

text \<open>The TTL index on \<open>expires_at\<close> with \<open>expireAfterSeconds = 0\<close>: MongoDB deletes expired demo links.\<close>

definition demoTTLPurge :: "world \<Rightarrow> world" where
  "demoTTLPurge w = w\<lparr>demo_urls := filter (\<lambda>d. now w < du_ExpiresAt d) (demo_urls w)\<rparr>"

definition hour :: int where "hour = 3600000000000"

text \<open>
  \<open>rapidLinkDemo\<close>: \<open>cookie\<close> is the value of the session cookie when the request has one,
  \<open>decoded\<close> the decoded body.
\<close>

definition rapidLinkDemo :: "stdlib \<Rightarrow> string option \<Rightarrow> DemoRequest option \<Rightarrow> world \<Rightarrow> response \<times> world" where
  "rapidLinkDemo L cookie decoded w =
     (case (case cookie of
              None \<Rightarrow> (case NewObjectID w of (oid, w0) \<Rightarrow> (hexOfObjectID L oid, w0))
            | Some v \<Rightarrow> if v = [] then (case NewObjectID w of (oid, w0) \<Rightarrow> (hexOfObjectID L oid, w0))
                        else (v, w)) of
        (sessionID, w0) \<Rightarrow>
        if \<not> connected w0 then (Panic, w0)
        else
        (case CountDocumentsDemo (\<lambda>d. du_SessionID d = sessionID) w0 of
           (None, w1) \<Rightarrow> (Response StatusInternalServerError (Text ''Database error''), w1)
         | (Some count, w1) \<Rightarrow>
           if count \<ge> 5 then
             (Response StatusForbidden (Text ''Demo limit reached. Please sign up to create more short URLs.''), w1)
           else
           (case decoded of
              None \<Rightarrow> (Response StatusBadRequest (Text ''Invalid request payload''), w1)
            | Some req \<Rightarrow>
              (case generateReadableCode L (dq_LongURL req) w1 of
                 (code, w2) \<Rightarrow>
                 let demoURL = \<lparr>du_ID = 0, du_ShortURL = code, du_LongURL = dq_LongURL req,
                                du_Domain = dq_Domain req, du_CreatedAt = now w2,
                                du_ExpiresAt = now w2 + 1 * hour, du_SessionID = sessionID\<rparr>
                 in
                 (case InsertOneDemo demoURL w2 of
                    (None, w3) \<Rightarrow> (Response StatusInternalServerError (Text ''Database error''), w3)
                  | (Some oid, w3) \<Rightarrow> (Response StatusOK (JSONDemo demoURL), w3))))))"

section \<open>Redirect (handlers.go)\<close>

text \<open>The update document of \<open>redirect\<close>: \<open>$inc\<close> clicks, \<open>$set\<close> last_clicked, \<open>$push\<close> click_history.\<close>

definition clickUpdate :: "int \<Rightarrow> string \<Rightarrow> string \<Rightarrow> URLData \<Rightarrow> URLData" where
  "clickUpdate t clientIP userAgent d =
     d\<lparr>Clicks := Clicks d + 1,
       LastClicked := Some t,
       ClickHistory := ClickHistory d @ [\<lparr>Timestamp = t, IP = clientIP, UserAgent = userAgent\<rparr>]\<rparr>"

definition trimPrefixSlash :: "string \<Rightarrow> string" where
  "trimPrefixSlash p = (case p of [] \<Rightarrow> [] | c # cs \<Rightarrow> if c = CHR ''/'' then cs else p)"

definition activeFilter :: "string \<Rightarrow> int \<Rightarrow> URLData \<Rightarrow> bool" where
  "activeFilter shortURL t d =
     (ShortURL d = shortURL \<and> IsActive d
      \<and> (case ExpiresAt d of None \<Rightarrow> True | Some e \<Rightarrow> t < e))"

text \<open>
  \<open>redirect\<close> on the request path: 301 with the target in the body stands for
  \<open>http.Redirect\<close>. The analytics update comes first, the validation of the stored target
  after it; an error of the update is logged and ignored.
\<close>

definition redirect :: "stdlib \<Rightarrow> string \<Rightarrow> string \<Rightarrow> string \<Rightarrow> world \<Rightarrow> response \<times> world" where
  "redirect L path clientIP userAgent w =
     (let shortURL = sanitizeInput L (trimPrefixSlash path) in
      if shortURL = [] \<or> shortURL = ''url'' \<or> shortURL = ''analytics''
         \<or> length shortURL > 50 \<or> \<not> validateCustomURL L shortURL
      then (Response StatusNotFound (Text ''404 page not found''), w)
      else if \<not> connected w
      then (Response StatusInternalServerError (Text ''database connection error''), w)
      else
      (case FindOne (activeFilter shortURL (now w)) w of
         (Found urlData, w1) \<Rightarrow>
           (case UpdateOne (\<lambda>d. ID d = ID urlData) (clickUpdate (now w1) clientIP userAgent) w1 of
              (updated, w2) \<Rightarrow>
                if \<not> validateURL L w2 (LongURL urlData)
                then (Response StatusForbidden (Text ''URL blocked for security reasons''), w2)
                else (Response StatusMovedPermanently (Text (LongURL urlData)), w2))
       | (notFound, w1) \<Rightarrow>
           (case FindOneDemo (\<lambda>d. du_ShortURL d = shortURL \<and> now w1 < du_ExpiresAt d) w1 of
              (Found demoURL, w2) \<Rightarrow>
                if \<not> validateURL L w2 (du_LongURL demoURL)
                then (Response StatusForbidden (Text ''URL blocked for security reasons''), w2)
                else (Response StatusMovedPermanently (Text (du_LongURL demoURL)), w2)
            | (notFound2, w2) \<Rightarrow> (Response StatusNotFound (Text ''404 page not found''), w2))))"

section \<open>Bulk creation (handlers.go)\<close>

text \<open>\<open>generateShortCodeForBulk\<close>: \<open>Inl\<close> is the error, \<open>Inr\<close> the code.\<close>

definition generateShortCodeForBulk :: "stdlib \<Rightarrow> string \<Rightarrow> string \<Rightarrow> world \<Rightarrow> (string + string) \<times> world" where
  "generateShortCodeForBulk L longURL customAlias w =
     (if customAlias \<noteq> [] then
        if \<not> validateCustomURL L customAlias then (Inl ''invalid custom alias format'', w)
        else (case FindOne (\<lambda>d. ShortURL d = customAlias \<and> IsActive d) w of
                (Found existing, w1) \<Rightarrow>
                  (Inl (''custom alias '' @ [CHR 0x27] @ customAlias @ [CHR 0x27] @ '' already exists''), w1)
              | (other, w1) \<Rightarrow> (Inr customAlias, w1))
      else (case generateReadableCode L longURL w of (code, w1) \<Rightarrow> (Inr code, w1)))"

text \<open>
  \<open>processSingleURL\<close>: the result of one row, or \<open>None\<close> when the row reaches the store
  and \<open>DB\<close> is nil (a panic). Any error of the deduplication lookup falls through to
  the creation of a new link.
\<close>

definition processSingleURL :: "stdlib \<Rightarrow> BulkURLRequest \<Rightarrow> string \<Rightarrow> world \<Rightarrow> BulkURLResult option \<times> world" where
  "processSingleURL L req userID w =
     (let result = \<lparr>br_LongURL = bq_LongURL req, br_ShortURL = [], br_Domain = bq_Domain req,
                    br_Tags = bq_Tags req, br_Success = False, br_Error = [], br_CreatedAt = []\<rparr>
      in
      if \<not> validateURL L w (bq_LongURL req)
      then (Some (result\<lparr>br_Error := ''Invalid URL format''\<rparr>), w)
      else
      let domain = (if bq_Domain req = []
                    then (if BASE_URL w = [] then ''http://localhost:8080'' else BASE_URL w)
                    else bq_Domain req);
          result = result\<lparr>br_Domain := domain\<rparr>;
          tags = (if length (bq_Tags req) > 0 then sanitizeStringSlice L (bq_Tags req) else bq_Tags req);
          result = result\<lparr>br_Tags := tags\<rparr>
      in
      if \<not> connected w then (None, w)
      else
      (case FindOne (existingFilter (bq_LongURL req) domain userID) w of
         (Found existingURL, w1) \<Rightarrow>
           (Some (result\<lparr>br_ShortURL := ShortURL existingURL, br_Success := True,
                          br_CreatedAt := formatRFC3339 L (CreatedAt existingURL)\<rparr>), w1)
       | (other, w1) \<Rightarrow>
         (case generateShortCodeForBulk L (bq_LongURL req) (bq_CustomAlias req) w1 of
            (Inl err, w2) \<Rightarrow>
              (Some (result\<lparr>br_Error := ''Failed to generate short code: '' @ err\<rparr>), w2)
          | (Inr shortCode, w2) \<Rightarrow>
            (case (if bq_Expires req \<noteq> []
                   then (case parseRFC3339 L (bq_Expires req) of
                           Some t \<Rightarrow> Inr (Some t)
                         | None \<Rightarrow>
                            (case parseDate L (bq_Expires req) of
                               Some t \<Rightarrow> Inr (Some (endOfDay L t))
                             | None \<Rightarrow> Inl ()))
                   else Inr (Some (addYears L (now w2) 5))) of
               Inl _ \<Rightarrow>
                 (Some (result\<lparr>br_Error := ''Invalid expiration date format: '' @ bq_Expires req
                                   @ '' (use YYYY-MM-DD or RFC3339)''\<rparr>), w2)
             | Inr expiresAt \<Rightarrow>
               (case NewObjectID w2 of (oid, w3) \<Rightarrow>
                  let urlData = \<lparr>ID = oid, ShortURL = shortCode, LongURL = bq_LongURL req,
                                 Domain = domain, Tags = tags, UserID = userID,
                                 CreatedAt = now w3, ExpiresAt = expiresAt, Clicks = 0,
                                 IsActive = True, LastClicked = None, ClickHistory = []\<rparr>
                  in
                  (case InsertOne urlData w3 of
                     (None, w4) \<Rightarrow> (Some (result\<lparr>br_Error := ''Database error''\<rparr>), w4)
                   | (Some _, w4) \<Rightarrow>
                       (Some (result\<lparr>br_ShortURL := shortCode, br_Success := True,
                                      br_CreatedAt := formatRFC3339 L (CreatedAt urlData)\<rparr>), w4)))))))"

text \<open>
  The worker pool of \<open>processBulkFile\<close>. The channel hands every index to exactly one
  worker; \<open>order\<close> is the order in which the workers take their rows to the store, which
  the scheduler chooses. Under the mutex a worker writes \<open>results[index]\<close> and bumps one
  counter.
\<close>

record poolState =
  results :: "BulkURLResult list"
  successful :: int
  failed :: int

fun workers :: "stdlib \<Rightarrow> nat list \<Rightarrow> BulkURLRequest list \<Rightarrow> string \<Rightarrow> poolState \<Rightarrow> world
                \<Rightarrow> poolState option \<times> world" where
  "workers L [] rows userID st w = (Some st, w)"
| "workers L (index # rest) rows userID st w =
     (case processSingleURL L (rows ! index) userID w of
        (None, w1) \<Rightarrow> (None, w1)
      | (Some result, w1) \<Rightarrow>
          workers L rest rows userID
            (st\<lparr>results := (results st)[index := result],
                successful := (if br_Success result then successful st + 1 else successful st),
                failed := (if br_Success result then failed st else failed st + 1)\<rparr>) w1)"

definition zeroResult :: BulkURLResult where
  "zeroResult = \<lparr>br_LongURL = [], br_ShortURL = [], br_Domain = [], br_Tags = [],
                 br_Success = False, br_Error = [], br_CreatedAt = []\<rparr>"

datatype bulkOutcome = BulkError string | BulkOK BulkResponse | BulkPanic

definition maxURLsPerBatch :: nat where "maxURLsPerBatch = 1000"

text \<open>
  \<open>processBulkFile\<close> on the rows \<open>parseCSVFile\<close> returns (\<open>None\<close>: the CSV does not
  parse). The elapsed time of the response is left out, and the two error messages that
  the source formats with the parser's error and with the numbers of rows are given by
  their fixed part.
\<close>

definition processBulkFile :: "stdlib \<Rightarrow> nat list \<Rightarrow> BulkURLRequest list option \<Rightarrow> string \<Rightarrow> world
                               \<Rightarrow> bulkOutcome \<times> world" where
  "processBulkFile L order parsed userID w =
     (case parsed of
        None \<Rightarrow> (BulkError ''failed to parse CSV'', w)
      | Some rows \<Rightarrow>
          if length rows = 0 then (BulkError ''no valid URLs found in file'', w)
          else if length rows > maxURLsPerBatch then (BulkError ''too many URLs in file'', w)
          else
          (case workers L order rows userID
                  \<lparr>results = replicate (length rows) zeroResult, successful = 0, failed = 0\<rparr> w of
             (None, w1) \<Rightarrow> (BulkPanic, w1)
           | (Some st, w1) \<Rightarrow>
               (BulkOK \<lparr>TotalProcessed = int (length rows), Successful = successful st,
                        Failed = failed st, Results = results st\<rparr>, w1)))"

section \<open>The value of a base58 string\<close>

text \<open>
  What "base58-encoding an integer" means: the digits of the string, most significant
  first, each symbol worth its position in the alphabet.
\<close>

fun indexOf :: "char \<Rightarrow> string \<Rightarrow> nat" where
  "indexOf c [] = 0"
| "indexOf c (x # xs) = (if x = c then 0 else Suc (indexOf c xs))"

definition base58Value :: "string \<Rightarrow> int" where
  "base58Value s = foldl (\<lambda>acc c. acc * 58 + int (indexOf c base58Alphabet)) 0 s"

section \<open>A test library and example worlds\<close>

text \<open>
  The library functions on the inputs of the examples below. \<open>sha256Sum\<close> tabulates the
  SHA-256 digests of the example URLs; \<open>urlParse\<close> their scheme and host; the string
  functions are those of Go on ASCII text; the instants are nanoseconds since 1970, and
  five years from the example instant contain one leap day.
\<close>

definition exampleCom :: string where "exampleCom = ''https://example.com''"
definition exampleOrg :: string where "exampleOrg = ''https://example.org/a''"
definition localApp :: string where "localApp = ''http://localhost:3000/app''"
definition rapidLink :: string where "rapidLink = ''https://rapid.link''"

definition testSha256 :: "string \<Rightarrow> 8 word list" where
  "testSha256 s =
     (if s = exampleCom then
        [0x10, 0x06, 0x80, 0xad, 0x54, 0x6c, 0xe6, 0xa5, 0x77, 0xf4, 0x2f, 0x52, 0xdf, 0x33, 0xb4, 0xcf,
         0xdc, 0xa7, 0x56, 0x85, 0x9e, 0x66, 0x4b, 0x8d, 0x7d, 0xe3, 0x29, 0xb1, 0x50, 0xd0, 0x9c, 0xe9]
      else if s = exampleOrg then
        [0xb5, 0xb1, 0x0d, 0xd0, 0x42, 0x9e, 0x69, 0xac, 0x7c, 0xfa, 0xf0, 0xa2, 0x0b, 0x69, 0x01, 0xc1,
         0x26, 0x5c, 0x50, 0xb5, 0x5d, 0x17, 0x51, 0xbc, 0xb6, 0x84, 0xed, 0x96, 0xef, 0x7b, 0x30, 0x0a]
      else if s = localApp then
        [0xcb, 0x61, 0x23, 0xc7, 0x83, 0x82, 0x19, 0x6f, 0x62, 0x3c, 0xb3, 0xb8, 0x45, 0x3a, 0x13, 0x04,
         0x01, 0x59, 0x3e, 0x79, 0xe2, 0x28, 0x01, 0x6a, 0xed, 0xc8, 0xc6, 0xdd, 0x0c, 0x2c, 0x61, 0x79]
      else replicate 32 0)"

definition testUrlParse :: "string \<Rightarrow> (string \<times> string) option" where
  "testUrlParse s =
     (if s = exampleCom then Some (''https'', ''example.com'')
      else if s = exampleOrg then Some (''https'', ''example.org'')
      else if s = localApp then Some (''http'', ''localhost:3000'')
      else if s = rapidLink then Some (''https'', ''rapid.link'')
      else None)"

definition testHtmlEscape :: "string \<Rightarrow> string" where
  "testHtmlEscape s =
     concat (map (\<lambda>c. if c = CHR ''<'' then ''&lt;'' else if c = CHR ''>'' then ''&gt;''
                        else if c = CHR ''&'' then ''&amp;'' else if c = CHR 0x27 then ''&#39;''
                        else if c = CHR 0x22 then ''&#34;'' else [c]) s)"

definition asciiSpace :: "char \<Rightarrow> bool" where
  "asciiSpace c = (c = CHR '' '' \<or> c = CHR 0x09 \<or> c = CHR 0x0A \<or> c = CHR 0x0B \<or> c = CHR 0x0C \<or> c = CHR 0x0D)"

definition testTrimSpace :: "string \<Rightarrow> string" where
  "testTrimSpace s = rev (dropWhile asciiSpace (rev (dropWhile asciiSpace s)))"

definition testToLower :: "string \<Rightarrow> string" where
  "testToLower s =
     map (\<lambda>c. let n = (of_char c :: nat) in if 65 \<le> n \<and> n \<le> 90 then char_of (n + 32) else c) s"

definition exampleNow :: int where "exampleNow = 1762000000000000000"

definition testLib :: stdlib where
  "testLib =
     \<lparr>sha256Sum = testSha256,
      urlParse = testUrlParse,
      htmlEscape = testHtmlEscape,
      utf8Decode = map of_char,
      utf8Encode = map char_of,
      utf8Valid = list_all (\<lambda>c. (of_char c :: nat) < 128),
      trimSpace = testTrimSpace,
      toLower = testToLower,
      parseRFC3339 = (\<lambda>s. None),
      parseDate = (\<lambda>s. None),
      endOfDay = (\<lambda>t. t),
      addYears = (\<lambda>t n. t + n * 365 * 24 * hour + 24 * hour),
      formatRFC3339 = (\<lambda>t. ''2025-11-01T12:26:40Z''),
      hexOfObjectID = (\<lambda>n. replicate 24 (CHR ''0''))\<rparr>"

text \<open>An empty, healthy store at the example instant.\<close>

definition emptyWorld :: world where
  "emptyWorld =
     \<lparr>connected = True, urls = [], demo_urls = [], next_oid = 1, now = exampleNow,
      rand_draws = (\<lambda>i. i), rand_pos = 0, db_fault = (\<lambda>i. False), db_ops = 0,
      BASE_URL = rapidLink, ALLOW_LOCALHOST = []\<rparr>"

definition exampleRequest :: ShortenRequest where
  "exampleRequest =
     \<lparr>sr_LongURL = exampleCom, sr_Custom = [], sr_Expires = [], sr_Domain = [], sr_Tags = []\<rparr>"

text \<open>
  A store in which another user holds the base code of the first example URL for a
  different target (a custom code), and the world with that store.
\<close>

definition takenLink :: URLData where
  "takenLink =
     \<lparr>ID = 1, ShortURL = ''3gU4BdRtKh'', LongURL = exampleOrg, Domain = rapidLink, Tags = [],
      UserID = ''u2'', CreatedAt = exampleNow, ExpiresAt = None, Clicks = 0,
      IsActive = True, LastClicked = None, ClickHistory = []\<rparr>"

definition takenWorld :: world where
  "takenWorld = emptyWorld\<lparr>urls := [takenLink], next_oid := 2\<rparr>"

section \<open>Notions used in the statements\<close>

text \<open>
  \<open>sameEnv w w'\<close>: the configuration, the clock, the fault schedule and the random draws
  of \<open>w\<close> are those of \<open>w'\<close>; \<open>frame w w'\<close>: moreover both collections are unchanged.
\<close>

definition sameEnv :: "world \<Rightarrow> world \<Rightarrow> bool" where
  "sameEnv w w' = (connected w' = connected w \<and> BASE_URL w' = BASE_URL w
      \<and> ALLOW_LOCALHOST w' = ALLOW_LOCALHOST w \<and> now w' = now w \<and> db_fault w' = db_fault w
      \<and> rand_draws w' = rand_draws w)"

definition frame :: "world \<Rightarrow> world \<Rightarrow> bool" where
  "frame w w' = (sameEnv w w' \<and> urls w' = urls w \<and> demo_urls w' = demo_urls w)"

text \<open>The target and the domain \<open>shorten\<close> works with, and its three validation checks.\<close>

definition targetOf :: "stdlib \<Rightarrow> ShortenRequest \<Rightarrow> string" where
  "targetOf L req = sanitizeInput L (sr_LongURL req)"

definition domainOf :: "stdlib \<Rightarrow> world \<Rightarrow> ShortenRequest \<Rightarrow> string" where
  "domainOf L w req =
     (if sanitizeInput L (sr_Domain req) = [] then BASE_URL w else sanitizeInput L (sr_Domain req))"

definition customOf :: "stdlib \<Rightarrow> ShortenRequest \<Rightarrow> string" where
  "customOf L req = sanitizeInput L (sr_Custom req)"

definition passesValidation :: "stdlib \<Rightarrow> world \<Rightarrow> ShortenRequest \<Rightarrow> bool" where
  "passesValidation L w req =
     (validateURL L w (targetOf L req)
      \<and> (domainOf L w req = [] \<or> validateURL L w (domainOf L w req))
      \<and> (customOf L req = [] \<or> validateCustomURL L (customOf L req)))"

text \<open>What the two unique indexes guarantee of a collection.\<close>

definition shortURLsDistinct :: "URLData list \<Rightarrow> bool" where
  "shortURLsDistinct ds = distinct (map ShortURL ds)"

definition activeLongURLsDistinct :: "URLData list \<Rightarrow> bool" where
  "activeLongURLsDistinct ds = distinct (map LongURL (filter IsActive ds))"

text \<open>The link the first example request creates in the empty store, and the world after it.\<close>

definition exampleLink :: URLData where
  "exampleLink =
     \<lparr>ID = 1, ShortURL = ''3gU4BdRtKh'', LongURL = exampleCom, Domain = rapidLink, Tags = [],
      UserID = ''u1'', CreatedAt = exampleNow, ExpiresAt = Some 1919766400000000000, Clicks = 0,
      IsActive = True, LastClicked = None, ClickHistory = []\<rparr>"

definition createdWorld :: world where
  "createdWorld = emptyWorld\<lparr>urls := [exampleLink], next_oid := 2, db_ops := 4\<rparr>"

text \<open>The domain \<open>processSingleURL\<close> works with, and a bulk row for the first example URL.\<close>

definition bulkDomainOf :: "world \<Rightarrow> BulkURLRequest \<Rightarrow> string" where
  "bulkDomainOf w req =
     (if bq_Domain req = []
      then (if BASE_URL w = [] then ''http://localhost:8080'' else BASE_URL w)
      else bq_Domain req)"

definition exampleRow :: BulkURLRequest where
  "exampleRow =
     \<lparr>bq_LongURL = exampleCom, bq_Domain = [], bq_CustomAlias = [], bq_Tags = [], bq_Expires = []\<rparr>"

text \<open>
  A store in which user \<open>u2\<close> holds the active custom code \<open>promo\<close> for the second example
  URL, and a request of user \<open>u1\<close> for the first example URL under the same custom code,
  as a single request and as a bulk row.
\<close>

definition promoLink :: URLData where
  "promoLink =
     \<lparr>ID = 1, ShortURL = ''promo'', LongURL = exampleOrg, Domain = rapidLink, Tags = [],
      UserID = ''u2'', CreatedAt = exampleNow, ExpiresAt = None, Clicks = 0,
      IsActive = True, LastClicked = None, ClickHistory = []\<rparr>"

definition promoWorld :: world where
  "promoWorld = emptyWorld\<lparr>urls := [promoLink], next_oid := 2\<rparr>"

definition promoRequest :: ShortenRequest where
  "promoRequest =
     \<lparr>sr_LongURL = exampleCom, sr_Custom = ''promo'', sr_Expires = [], sr_Domain = [], sr_Tags = []\<rparr>"

definition promoRow :: BulkURLRequest where
  "promoRow =
     \<lparr>bq_LongURL = exampleCom, bq_Domain = [], bq_CustomAlias = ''promo'', bq_Tags = [],
      bq_Expires = []\<rparr>"

text \<open>
  A store in which the base code of the first example URL and that code with the first
  random suffix are both taken, by custom codes of other users for other targets.
\<close>

definition takenLink2 :: URLData where
  "takenLink2 =
     \<lparr>ID = 2, ShortURL = ''3gU4BdRtKh12'', LongURL = rapidLink, Domain = rapidLink, Tags = [],
      UserID = ''u3'', CreatedAt = exampleNow, ExpiresAt = None, Clicks = 0,
      IsActive = True, LastClicked = None, ClickHistory = []\<rparr>"

definition crowdedWorld :: world where
  "crowdedWorld = emptyWorld\<lparr>urls := [takenLink, takenLink2], next_oid := 3\<rparr>"

text \<open>The link \<open>shorten\<close> creates for the first example request in that store.\<close>

definition crowdedLink :: URLData where
  "crowdedLink =
     \<lparr>ID = 3, ShortURL = ''3gU4BdRtKh1234'', LongURL = exampleCom, Domain = rapidLink, Tags = [],
      UserID = ''u1'', CreatedAt = exampleNow, ExpiresAt = Some 1919766400000000000, Clicks = 0,
      IsActive = True, LastClicked = None, ClickHistory = []\<rparr>"

text \<open>
  The first example URL once more, for the same user under another domain: the request,
  and an active link for it with a code and an id of its own.
\<close>

definition otherDomainRequest :: ShortenRequest where
  "otherDomainRequest =
     \<lparr>sr_LongURL = exampleCom, sr_Custom = [], sr_Expires = [], sr_Domain = exampleOrg,
      sr_Tags = []\<rparr>"

definition otherDomainLink :: URLData where
  "otherDomainLink =
     \<lparr>ID = 2, ShortURL = ''3gU4BdRtKh12'', LongURL = exampleCom, Domain = exampleOrg, Tags = [],
      UserID = ''u1'', CreatedAt = exampleNow, ExpiresAt = Some 1919766400000000000, Clicks = 0,
      IsActive = True, LastClicked = None, ClickHistory = []\<rparr>"

text \<open>The code \<open>redirect\<close> looks up, and the format check it makes before the lookup.\<close>

definition redirectCode :: "stdlib \<Rightarrow> string \<Rightarrow> string" where
  "redirectCode L path = sanitizeInput L (trimPrefixSlash path)"

definition wellFormedCode :: "stdlib \<Rightarrow> string \<Rightarrow> bool" where
  "wellFormedCode L c =
     (c \<noteq> [] \<and> c \<noteq> ''url'' \<and> c \<noteq> ''analytics'' \<and> length c \<le> 50 \<and> validateCustomURL L c)"

text \<open>
  A store with an active link to a localhost URL, created while \<open>ALLOW_LOCALHOST\<close> was
  \<open>true\<close>; in the world below the variable is unset, so the target fails the validation.
\<close>

definition localLink :: URLData where
  "localLink =
     \<lparr>ID = 1, ShortURL = ''b234FgPioX'', LongURL = localApp, Domain = rapidLink, Tags = [],
      UserID = ''u1'', CreatedAt = exampleNow - hour, ExpiresAt = Some 1919766400000000000,
      Clicks = 0, IsActive = True, LastClicked = None, ClickHistory = []\<rparr>"

definition blockedWorld :: world where
  "blockedWorld = emptyWorld\<lparr>urls := [localLink], next_oid := 2\<rparr>"

text \<open>A batch of two rows, for the two example URLs.\<close>

definition orgRow :: BulkURLRequest where
  "orgRow =
     \<lparr>bq_LongURL = exampleOrg, bq_Domain = [], bq_CustomAlias = [], bq_Tags = [], bq_Expires = []\<rparr>"

definition exampleBatch :: "BulkURLRequest list" where
  "exampleBatch = [exampleRow, orgRow]"

text \<open>
  The session \<open>rapidLinkDemo\<close> works with (a fresh ObjectID in hexadecimal when the request
  has no session cookie), the number of demo links of a session, and the cap: no session
  of the collection has more than 5 demo links.
\<close>

definition sessionOf :: "stdlib \<Rightarrow> string option \<Rightarrow> world \<Rightarrow> string" where
  "sessionOf L cookie w =
     (case cookie of None \<Rightarrow> hexOfObjectID L (next_oid w)
      | Some v \<Rightarrow> if v = [] then hexOfObjectID L (next_oid w) else v)"

definition sessionCount :: "string \<Rightarrow> DemoURL list \<Rightarrow> nat" where
  "sessionCount sid ds = length (filter (\<lambda>d. du_SessionID d = sid) ds)"

definition sessionCap :: "DemoURL list \<Rightarrow> bool" where
  "sessionCap ds = list_all (\<lambda>d. sessionCount (du_SessionID d) ds \<le> 5) ds"

text \<open>A sequence of demo requests, each with its cookie and its decoded body.\<close>

fun demoRequests :: "stdlib \<Rightarrow> (string option \<times> DemoRequest option) list \<Rightarrow> world \<Rightarrow> world" where
  "demoRequests L [] w = w"
| "demoRequests L ((cookie, decoded) # rest) w =
     demoRequests L rest (snd (rapidLinkDemo L cookie decoded w))"

text \<open>A demo request for the first example URL, and a store where session \<open>s1\<close> has 5 demo links.\<close>

definition demoRequest :: DemoRequest where
  "demoRequest = \<lparr>dq_LongURL = exampleCom, dq_Domain = []\<rparr>"

definition demoLink :: "nat \<Rightarrow> DemoURL" where
  "demoLink i =
     \<lparr>du_ID = i, du_ShortURL = ''3gU4BdRtKh'', du_LongURL = exampleCom, du_Domain = [],
      du_CreatedAt = exampleNow, du_ExpiresAt = exampleNow + hour, du_SessionID = ''s1''\<rparr>"

definition fullDemoWorld :: world where
  "fullDemoWorld = emptyWorld\<lparr>demo_urls := map demoLink [1, 2, 3, 4, 5], next_oid := 6\<rparr>"

section \<open>Click accounting\<close>

text \<open>The invariant: the click count of every link is the length of its click history.\<close>

definition clicksConsistent :: "URLData list \<Rightarrow> bool" where
  "clicksConsistent ds = list_all (\<lambda>d. Clicks d = int (length (ClickHistory d))) ds"

text \<open>
  The writes the program makes to the collection, each one store operation: the insert of
  a link (\<open>shorten\<close>, \<open>processSingleURL\<close>), the click update of \<open>redirect\<close> on the link with
  a given id, and the expiry sweep. Requests that run concurrently interleave their
  writes; a sequence of writes stands for one interleaving.
\<close>

datatype storeWrite = InsertLink URLData | ClickLink nat int string string | SweepExpired int

fun applyWrite :: "storeWrite \<Rightarrow> URLData list \<Rightarrow> URLData list" where
  "applyWrite (InsertLink d) ds = (if indexes_admit d ds then ds @ [d] else ds)"
| "applyWrite (ClickLink oid t ip ua) ds = update_first (\<lambda>e. ID e = oid) (clickUpdate t ip ua) ds"
| "applyWrite (SweepExpired t) ds =
     map (\<lambda>d. if (case ExpiresAt d of None \<Rightarrow> False | Some e \<Rightarrow> e \<le> t) \<and> IsActive d
               then d\<lparr>IsActive := False\<rparr> else d) ds"

fun applyWrites :: "storeWrite list \<Rightarrow> URLData list \<Rightarrow> URLData list" where
  "applyWrites [] ds = ds"
| "applyWrites (u # us) ds = applyWrites us (applyWrite u ds)"

text \<open>The links the handlers insert have no clicks and an empty history.\<close>

fun freshWrite :: "storeWrite \<Rightarrow> bool" where
  "freshWrite (InsertLink d) = (Clicks d = 0 \<and> ClickHistory d = [])"
| "freshWrite (ClickLink oid t ip ua) = True"
| "freshWrite (SweepExpired t) = True"

fun clickOn :: "nat \<Rightarrow> storeWrite \<Rightarrow> bool" where
  "clickOn oid (ClickLink i t ip ua) = (i = oid)"
| "clickOn oid (InsertLink d) = False"
| "clickOn oid (SweepExpired t) = False"

definition clicksOn :: "nat \<Rightarrow> storeWrite list \<Rightarrow> nat" where
  "clicksOn oid us = length (filter (clickOn oid) us)"

section \<open>The base code\<close>

lemma alphabet_length: "length base58Alphabet = 58"
  by (simp add: base58Alphabet_def)

lemma alphabet_distinct: "distinct base58Alphabet"
  by (simp add: base58Alphabet_def)

lemma alphabet_nth_in: "k < 58 \<Longrightarrow> base58Alphabet ! k \<in> set base58Alphabet"
  by (simp add: alphabet_length)

lemma alphabet_unambiguous:
  "CHR ''0'' \<notin> set base58Alphabet \<and> CHR ''O'' \<notin> set base58Alphabet
   \<and> CHR ''I'' \<notin> set base58Alphabet \<and> CHR ''l'' \<notin> set base58Alphabet"
  by (simp add: base58Alphabet_def)

lemma encodeLoop_chars:
  "set acc \<subseteq> set base58Alphabet \<Longrightarrow> set (encodeLoop n acc) \<subseteq> set base58Alphabet"
proof (induction n acc rule: encodeLoop.induct)
  case (1 numCopy result)
  show ?case
  proof (cases "numCopy > 0")
    case True
    then have "nat (numCopy mod 58) < 58" by simp
    then have "base58Alphabet ! nat (numCopy mod 58) \<in> set base58Alphabet"
      by (rule alphabet_nth_in)
    with 1 True show ?thesis by (subst encodeLoop.simps) simp
  next
    case False
    with 1 show ?thesis by (subst encodeLoop.simps) simp
  qed
qed

lemma encodeBase58_chars: "set (encodeBase58 n) \<subseteq> set base58Alphabet"
  unfolding encodeBase58_def using encodeLoop_chars[of "[]" n]
  by (simp add: base58Alphabet_def)

lemma padBase58_replicate:
  "padBase58 code m = replicate (nat (m - int (length code))) (CHR ''1'') @ code"
proof (induction code m rule: padBase58.induct)
  case (1 code minLength)
  show ?case
  proof (cases "int (length code) < minLength")
    case True
    then have "nat (minLength - int (length code))
               = Suc (nat (minLength - int (length (CHR ''1'' # code))))"
      by simp
    with 1 True show ?thesis
      by (subst padBase58.simps) (simp add: replicate_app_Cons_same)
  next
    case False
    then show ?thesis by (subst padBase58.simps) simp
  qed
qed

lemma base58Code_shape:
  "base58Code L u =
     take 10 (replicate (6 - length (encodeBase58 (setBytes (take 8 (sha256Sum L u))))) (CHR ''1'')
              @ encodeBase58 (setBytes (take 8 (sha256Sum L u))))"
proof -
  have n: "nat (6 - int k) = 6 - k" for k by arith
  show ?thesis by (simp add: base58Code_def Let_def padBase58_replicate n)
qed

lemma base58Code_chars: "set (base58Code L u) \<subseteq> set base58Alphabet"
proof -
  have "CHR ''1'' \<in> set base58Alphabet" by (simp add: base58Alphabet_def)
  then show ?thesis
    unfolding base58Code_shape
    using encodeBase58_chars set_take_subset by fastforce
qed

lemma base58Code_length: "6 \<le> length (base58Code L u) \<and> length (base58Code L u) \<le> 10"
  unfolding base58Code_shape by auto

text \<open>
  Claim C4. For every URL the base code has between 6 and 10 characters, all of them
  from the alphabet of 58 distinct symbols, none of them 0, O, I or l; it is the encoding
  of the digest prefix, padded on the left with the zero symbol 1 up to 6 characters and
  cut to its first 10 characters.
\<close>

theorem base58Code_length_alphabet:
  "6 \<le> length (base58Code L u) \<and> length (base58Code L u) \<le> 10
   \<and> list_all (\<lambda>c. c \<in> set base58Alphabet) (base58Code L u)
   \<and> length base58Alphabet = 58 \<and> distinct base58Alphabet
   \<and> CHR ''0'' \<notin> set (base58Code L u) \<and> CHR ''O'' \<notin> set (base58Code L u)
   \<and> CHR ''I'' \<notin> set (base58Code L u) \<and> CHR ''l'' \<notin> set (base58Code L u)
   \<and> base58Alphabet ! 0 = CHR ''1''
   \<and> base58Code L u =
       take 10 (replicate (6 - length (encodeBase58 (setBytes (take 8 (sha256Sum L u))))) (CHR ''1'')
                @ encodeBase58 (setBytes (take 8 (sha256Sum L u))))"
proof -
  have in_alpha: "set (base58Code L u) \<subseteq> set base58Alphabet" by (rule base58Code_chars)
  then have "list_all (\<lambda>c. c \<in> set base58Alphabet) (base58Code L u)"
    by (auto simp: list_all_iff)
  moreover have "CHR ''0'' \<notin> set (base58Code L u)" "CHR ''O'' \<notin> set (base58Code L u)"
    "CHR ''I'' \<notin> set (base58Code L u)" "CHR ''l'' \<notin> set (base58Code L u)"
    using in_alpha alphabet_unambiguous by blast+
  moreover have "base58Alphabet ! 0 = CHR ''1''" by (simp add: base58Alphabet_def)
  ultimately show ?thesis
    using base58Code_length [of L u] base58Code_shape [of L u] alphabet_length alphabet_distinct
    by blast
qed

lemma indexOf_nth: "distinct xs \<Longrightarrow> k < length xs \<Longrightarrow> indexOf (xs ! k) xs = k"
proof (induction xs arbitrary: k)
  case Nil
  then show ?case by simp
next
  case (Cons x xs)
  then show ?case by (cases k) auto
qed

lemma foldl_base58_shift:
  "foldl (\<lambda>acc c. acc * 58 + int (indexOf c base58Alphabet)) a cs
   = a * 58 ^ length cs + foldl (\<lambda>acc c. acc * 58 + int (indexOf c base58Alphabet)) 0 cs"
proof -
  define f where "f = (\<lambda>(acc :: int) c. acc * 58 + int (indexOf c base58Alphabet))"
  have "foldl f a cs = a * 58 ^ length cs + foldl f 0 cs"
  proof (induction cs arbitrary: a)
    case Nil
    then show ?case by simp
  next
    case (Cons c cs)
    have "foldl f a (c # cs) = foldl f (f a c) cs" by simp
    also have "\<dots> = f a c * 58 ^ length cs + foldl f 0 cs" by (rule Cons.IH)
    also have "f a c = a * 58 + f 0 c" by (simp add: f_def)
    also have "(a * 58 + f 0 c) * 58 ^ length cs + foldl f 0 cs
               = a * 58 ^ length (c # cs) + (f 0 c * 58 ^ length cs + foldl f 0 cs)"
      by (simp add: algebra_simps)
    also have "f 0 c * 58 ^ length cs + foldl f 0 cs = foldl f (f 0 c) cs"
      by (rule Cons.IH [symmetric])
    also have "\<dots> = foldl f 0 (c # cs)" by simp
    finally show ?case .
  qed
  then show ?thesis by (simp add: f_def)
qed

lemma base58Value_Cons:
  "base58Value (c # cs) = int (indexOf c base58Alphabet) * 58 ^ length cs + base58Value cs"
  unfolding base58Value_def using foldl_base58_shift [of "int (indexOf c base58Alphabet)" cs]
  by simp

lemma encodeLoop_value:
  "0 \<le> n \<Longrightarrow> base58Value (encodeLoop n acc) = n * 58 ^ length acc + base58Value acc"
proof (induction n acc rule: encodeLoop.induct)
  case (1 numCopy result)
  show ?case
  proof (cases "numCopy > 0")
    case True
    let ?d = "base58Alphabet ! nat (numCopy mod 58)"
    have k: "nat (numCopy mod 58) < length base58Alphabet" by (simp add: alphabet_length)
    have idx: "int (indexOf ?d base58Alphabet) = numCopy mod 58"
      using indexOf_nth [OF alphabet_distinct k] by simp
    have "base58Value (encodeLoop numCopy result)
          = base58Value (encodeLoop (numCopy div 58) (?d # result))"
      using True by (subst encodeLoop.simps) simp
    also have "\<dots> = (numCopy div 58) * 58 ^ length (?d # result) + base58Value (?d # result)"
      using 1 True by simp
    also have "\<dots> = (numCopy div 58 * 58) * 58 ^ length result
                      + (numCopy mod 58) * 58 ^ length result + base58Value result"
      by (simp add: base58Value_Cons idx)
    also have "(numCopy div 58 * 58) * 58 ^ length result + (numCopy mod 58) * 58 ^ length result
               = (numCopy div 58 * 58 + numCopy mod 58) * 58 ^ length result"
      by (rule distrib_right [symmetric])
    also have "numCopy div 58 * 58 + numCopy mod 58 = numCopy" by simp
    finally show ?thesis .
  next
    case False
    with 1 have "numCopy = 0" by simp
    then show ?thesis by (subst encodeLoop.simps) simp
  qed
qed

lemma encodeBase58_value: "0 \<le> n \<Longrightarrow> base58Value (encodeBase58 n) = n"
proof (cases "n = 0")
  case True
  then show ?thesis by (simp add: encodeBase58_def base58Value_def base58Alphabet_def)
next
  case False
  assume "0 \<le> n"
  then show ?thesis using False encodeLoop_value [of n "[]"]
    by (simp add: encodeBase58_def base58Value_def)
qed

lemma foldl_bytes_bound:
  "0 \<le> a \<Longrightarrow> a < 256 ^ k \<Longrightarrow>
   0 \<le> foldl (\<lambda>acc b. acc * 256 + uint (b :: 8 word)) a bs
   \<and> foldl (\<lambda>acc b. acc * 256 + uint b) a bs < 256 ^ (k + length bs)"
proof (induction bs arbitrary: a k)
  case Nil
  then show ?case by simp
next
  case (Cons b bs)
  have b: "0 \<le> uint b" "uint b < 256" using uint_bounded [of b] by simp_all
  have lo: "0 \<le> a * 256 + uint b" using Cons.prems b by simp
  have "a + 1 \<le> 256 ^ k" using Cons.prems by simp
  then have "(a + 1) * 256 \<le> 256 ^ k * 256" by simp
  then have hi: "a * 256 + uint b < 256 ^ Suc k" using b by (simp add: algebra_simps)
  show ?case using Cons.IH [OF lo hi] by simp
qed

lemma setBytes_bounds: "0 \<le> setBytes bs \<and> setBytes bs < 256 ^ length bs"
  unfolding setBytes_def using foldl_bytes_bound [of 0 0 bs] by simp

lemma setBytes_take8: "0 \<le> setBytes (take 8 bs) \<and> setBytes (take 8 bs) < 2 ^ 64"
proof -
  have "setBytes (take 8 bs) < 256 ^ length (take 8 bs)" using setBytes_bounds by blast
  also have "\<dots> \<le> (256 :: int) ^ 8" by (rule power_increasing) simp_all
  finally show ?thesis using setBytes_bounds [of "take 8 bs"] by simp
qed

lemma generateBase58Suffix_length:
  "generateBase58Suffix n w = (sfx, w') \<Longrightarrow> length sfx = n"
proof (induction n arbitrary: w sfx w')
  case 0
  then show ?case by simp
next
  case (Suc n)
  obtain k w1 where i: "Intn 58 w = (k, w1)" by (cases "Intn 58 w")
  obtain rest w2 where r: "generateBase58Suffix n w1 = (rest, w2)"
    by (cases "generateBase58Suffix n w1")
  from Suc.prems i r have "sfx = base58Alphabet ! k # rest" by simp
  moreover have "length rest = n" using Suc.IH [OF r] .
  ultimately show ?case by simp
qed

lemma generateReadableCode_shape:
  "connected w \<Longrightarrow>
   \<exists>sfx. fst (generateReadableCode L u w) = base58Code L u @ sfx \<and> (length sfx = 0 \<or> length sfx = 2)"
  by (auto simp: generateReadableCode_def FindOne_def db_step_def Let_def
      dest: generateBase58Suffix_length
      split: prod.splits findres.splits option.splits if_splits)

lemma generateReadableCode_free:
  "connected w \<Longrightarrow> \<not> db_fault w (db_ops w) \<Longrightarrow> list_all (\<lambda>d. ShortURL d \<noteq> base58Code L u) (urls w) \<Longrightarrow>
   fst (generateReadableCode L u w) = base58Code L u"
  by (auto simp: generateReadableCode_def FindOne_def db_step_def Let_def list_all_iff
      dest: find_Some_iff [THEN iffD1] nth_mem
      split: prod.splits findres.splits option.splits if_splits)

text \<open>
  Claim C3. With a database, every invocation returns the base code of the URL followed
  by no suffix or by one of 2 characters, whatever the store, the random source and the
  instant: two invocations agree on the base code, and return the same code when neither
  finds it in the store. The base code is the first 10 characters of the padded base58
  encoding of the first 8 bytes of the SHA-256 digest read as an unsigned integer: the
  encoding has that integer as its base58 value, and the integer is below \<open>2 ^ 64\<close>.
\<close>

theorem generateReadableCode_deterministic:
  assumes "connected w" and "connected w'"
  shows "(\<exists>sfx sfx'. fst (generateReadableCode L u w) = base58Code L u @ sfx
            \<and> fst (generateReadableCode L u w') = base58Code L u @ sfx'
            \<and> (length sfx = 0 \<or> length sfx = 2) \<and> (length sfx' = 0 \<or> length sfx' = 2))
         \<and> (\<not> db_fault w (db_ops w) \<and> list_all (\<lambda>d. ShortURL d \<noteq> base58Code L u) (urls w)
            \<and> \<not> db_fault w' (db_ops w') \<and> list_all (\<lambda>d. ShortURL d \<noteq> base58Code L u) (urls w')
            \<longrightarrow> fst (generateReadableCode L u w) = fst (generateReadableCode L u w'))
         \<and> base58Code L u = take 10 (padBase58 (encodeBase58 (setBytes (take 8 (sha256Sum L u)))) 6)
         \<and> base58Value (encodeBase58 (setBytes (take 8 (sha256Sum L u))))
             = setBytes (take 8 (sha256Sum L u))
         \<and> 0 \<le> setBytes (take 8 (sha256Sum L u)) \<and> setBytes (take 8 (sha256Sum L u)) < 2 ^ 64"
proof -
  let ?n = "setBytes (take 8 (sha256Sum L u))"
  have shape: "\<exists>sfx sfx'. fst (generateReadableCode L u w) = base58Code L u @ sfx
            \<and> fst (generateReadableCode L u w') = base58Code L u @ sfx'
            \<and> (length sfx = 0 \<or> length sfx = 2) \<and> (length sfx' = 0 \<or> length sfx' = 2)"
    using generateReadableCode_shape [OF assms(1), of L u]
      generateReadableCode_shape [OF assms(2), of L u] by blast
  have same: "\<not> db_fault w (db_ops w) \<and> list_all (\<lambda>d. ShortURL d \<noteq> base58Code L u) (urls w)
            \<and> \<not> db_fault w' (db_ops w') \<and> list_all (\<lambda>d. ShortURL d \<noteq> base58Code L u) (urls w')
            \<longrightarrow> fst (generateReadableCode L u w) = fst (generateReadableCode L u w')"
    using generateReadableCode_free [OF assms(1)] generateReadableCode_free [OF assms(2)]
    by simp
  have k: "nat (6 - int k) = 6 - k" for k by arith
  have formula: "base58Code L u = take 10 (padBase58 (encodeBase58 ?n) 6)"
    by (simp add: base58Code_shape padBase58_replicate k)
  have bounds: "0 \<le> ?n \<and> ?n < 2 ^ 64" by (rule setBytes_take8)
  then have "base58Value (encodeBase58 ?n) = ?n" by (simp add: encodeBase58_value)
  with shape same formula bounds show ?thesis by blast
qed

theorem generateReadableCode_deterministic_witness:
  "connected emptyWorld \<and> connected takenWorld
   \<and> fst (generateReadableCode testLib exampleCom emptyWorld) = ''3gU4BdRtKh''
   \<and> fst (generateReadableCode testLib exampleCom takenWorld) = ''3gU4BdRtKh12''
   \<and> base58Code testLib exampleCom = ''3gU4BdRtKh''
   \<and> setBytes (take 8 (sha256Sum testLib exampleCom)) = 1154751836401231525
   \<and> base58Value (encodeBase58 (setBytes (take 8 (sha256Sum testLib exampleCom))))
       = 1154751836401231525"
proof -
  have c1: "connected emptyWorld" by (simp add: emptyWorld_def)
  have c2: "connected takenWorld" by (simp add: takenWorld_def emptyWorld_def)
  have n: "setBytes (take 8 (sha256Sum testLib exampleCom)) = 1154751836401231525"
    by (simp add: testLib_def testSha256_def setBytes_def)
  have b: "base58Code testLib exampleCom = ''3gU4BdRtKh''"
    by (simp add: base58Code_def testLib_def testSha256_def setBytes_def encodeBase58_def
        encodeLoop.simps padBase58.simps base58Alphabet_def)
  have g1: "fst (generateReadableCode testLib exampleCom emptyWorld) = ''3gU4BdRtKh''"
    by (simp add: generateReadableCode_def b emptyWorld_def FindOne_def db_step_def)
  have g2: "fst (generateReadableCode testLib exampleCom takenWorld) = ''3gU4BdRtKh12''"
    by (simp add: generateReadableCode_def b takenWorld_def takenLink_def emptyWorld_def
        FindOne_def db_step_def Intn_def base58Alphabet_def numeral_2_eq_2)
  show ?thesis
    using generateReadableCode_deterministic [OF c1 c2, of testLib exampleCom] c1 c2 n b g1 g2
    by simp
qed


section \<open>Frames of the store operations\<close>

lemma frame_refl [simp]: "frame w w" by (simp add: frame_def sameEnv_def)
lemma frame_trans: "frame w w1 \<Longrightarrow> frame w1 w2 \<Longrightarrow> frame w w2" by (simp add: frame_def sameEnv_def)

lemma FindOne_frame: "FindOne flt w = (r, w1) \<Longrightarrow> frame w w1"
  by (auto simp: FindOne_def db_step_def frame_def sameEnv_def split: if_splits option.splits)

lemma FindOne_ops: "FindOne flt w = (r, w1) \<Longrightarrow> db_ops w1 = db_ops w + 1"
  by (auto simp: FindOne_def db_step_def split: if_splits option.splits)

lemma FindOne_result:
  "FindOne flt w = (r, w1) \<Longrightarrow>
   r = (if db_fault w (db_ops w) then ErrOther
        else case find flt (urls w) of None \<Rightarrow> ErrNoDocuments | Some d \<Rightarrow> Found d)"
  by (auto simp: FindOne_def db_step_def split: if_splits option.splits)

lemma generateBase58Suffix_frame: "generateBase58Suffix n w = (s, w1) \<Longrightarrow> frame w w1"
proof (induction n arbitrary: w s w1)
  case 0
  then show ?case by simp
next
  case (Suc n)
  obtain k wa where i: "Intn 58 w = (k, wa)" by (cases "Intn 58 w")
  obtain rest wb where r: "generateBase58Suffix n wa = (rest, wb)"
    by (cases "generateBase58Suffix n wa")
  have "frame w wa" using i by (auto simp: Intn_def frame_def sameEnv_def)
  moreover have "frame wa wb" using Suc.IH [OF r] .
  moreover have "w1 = wb" using Suc.prems i r by simp
  ultimately show ?case using frame_trans by blast
qed

lemma generateReadableCode_frame: "generateReadableCode L u w = (c, w1) \<Longrightarrow> frame w w1"
  by (auto simp: generateReadableCode_def Let_def split: if_splits prod.splits findres.splits
      dest!: FindOne_frame generateBase58Suffix_frame intro: frame_trans)

lemma validateURL_env: "ALLOW_LOCALHOST w' = ALLOW_LOCALHOST w \<Longrightarrow> validateURL L w' u = validateURL L w u"
  by (simp only: validateURL_def)

lemma InsertOne_Some:
  "InsertOne d w = (Some oid, w1) \<Longrightarrow>
   sameEnv w w1 \<and> demo_urls w1 = demo_urls w \<and> urls w1 = urls w @ [d\<lparr>ID := oid\<rparr>]
   \<and> indexes_admit (d\<lparr>ID := oid\<rparr>) (urls w) \<and> \<not> db_fault w (db_ops w)"
  by (auto simp: InsertOne_def db_step_def NewObjectID_def sameEnv_def Let_def
      split: if_splits prod.splits)

lemma InsertOne_None: "InsertOne d w = (None, w1) \<Longrightarrow> frame w w1"
  by (auto simp: InsertOne_def db_step_def NewObjectID_def frame_def sameEnv_def Let_def
      split: if_splits prod.splits)


lemmas status_defs = StatusOK_def StatusCreated_def StatusMovedPermanently_def StatusBadRequest_def
  StatusForbidden_def StatusNotFound_def StatusConflict_def StatusInternalServerError_def

lemma frame_sameEnv: "frame w w' \<Longrightarrow> sameEnv w w'" by (simp add: frame_def)
lemma sameEnv_trans: "sameEnv w w1 \<Longrightarrow> sameEnv w1 w2 \<Longrightarrow> sameEnv w w2" by (simp add: sameEnv_def)

lemma checkAndInsert_cases:
  assumes "checkAndInsert u w = (r, w')"
  shows "(\<exists>d sfx. r = Response StatusCreated (JSONURL d)
            \<and> d = u\<lparr>ID := ID d, ShortURL := ShortURL u @ sfx\<rparr>
            \<and> (length sfx = 0 \<or> length sfx = 2)
            \<and> (sfx = [] \<longleftrightarrow> find (\<lambda>e. ShortURL e = ShortURL u) (urls w) = None)
            \<and> urls w' = urls w @ [d] \<and> indexes_admit d (urls w)
            \<and> sameEnv w w' \<and> demo_urls w' = demo_urls w)
         \<or> (\<exists>msg. r = Response StatusInternalServerError (Text msg) \<and> frame w w')"
proof -
  obtain f w1 where f: "FindOne (\<lambda>d. ShortURL d = ShortURL u) w = (f, w1)"
    by (cases "FindOne (\<lambda>d. ShortURL d = ShortURL u) w")
  note fr1 = FindOne_frame [OF f] and res = FindOne_result [OF f]
  show ?thesis
  proof (cases f)
    case ErrOther
    with assms f fr1 show ?thesis by (auto simp: checkAndInsert_def)
  next
    case ErrNoDocuments
    with res have none: "find (\<lambda>e. ShortURL e = ShortURL u) (urls w) = None"
      by (auto split: if_splits option.splits)
    obtain o2 w3 where ins: "InsertOne u w1 = (o2, w3)" by (cases "InsertOne u w1")
    show ?thesis
    proof (cases o2)
      case None
      with assms f ErrNoDocuments ins InsertOne_None [of u w1 w3] fr1 show ?thesis
        by (auto simp: checkAndInsert_def intro: frame_trans)
    next
      case (Some oid)
      with ins InsertOne_Some [of u w1 oid w3] fr1
      have "sameEnv w w3" "demo_urls w3 = demo_urls w" "urls w3 = urls w @ [u\<lparr>ID := oid\<rparr>]"
        "indexes_admit (u\<lparr>ID := oid\<rparr>) (urls w)"
        by (auto simp: frame_def sameEnv_def)
      moreover have "r = Response StatusCreated (JSONURL (u\<lparr>ID := oid\<rparr>))" "w' = w3"
        using assms f ErrNoDocuments ins Some by (auto simp: checkAndInsert_def)
      ultimately show ?thesis using none
        by (intro disjI1 exI [of _ "u\<lparr>ID := oid\<rparr>"] exI [of _ "[]"]) simp
    qed
  next
    case (Found e)
    with res have some: "find (\<lambda>e. ShortURL e = ShortURL u) (urls w) \<noteq> None"
      by (auto split: if_splits option.splits)
    obtain sfx w2 where g: "generateBase58Suffix 2 w1 = (sfx, w2)"
      by (cases "generateBase58Suffix 2 w1")
    note fr2 = generateBase58Suffix_frame [OF g] and len = generateBase58Suffix_length [OF g]
    let ?u1 = "u\<lparr>ShortURL := ShortURL u @ sfx\<rparr>"
    obtain o2 w3 where ins: "InsertOne ?u1 w2 = (o2, w3)" by (cases "InsertOne ?u1 w2")
    have fr: "frame w w2" using fr1 fr2 by (rule frame_trans)
    show ?thesis
    proof (cases o2)
      case None
      with assms f Found g ins InsertOne_None [of ?u1 w2 w3] fr show ?thesis
        by (auto simp: checkAndInsert_def intro: frame_trans)
    next
      case (Some oid)
      with ins InsertOne_Some [of ?u1 w2 oid w3] fr
      have "sameEnv w w3" "demo_urls w3 = demo_urls w" "urls w3 = urls w @ [?u1\<lparr>ID := oid\<rparr>]"
        "indexes_admit (?u1\<lparr>ID := oid\<rparr>) (urls w)"
        by (auto simp: frame_def sameEnv_def)
      moreover have "r = Response StatusCreated (JSONURL (?u1\<lparr>ID := oid\<rparr>))" "w' = w3"
        using assms f Found g ins Some by (auto simp: checkAndInsert_def)
      ultimately show ?thesis using some len
        by (intro disjI1 exI [of _ "?u1\<lparr>ID := oid\<rparr>"] exI [of _ sfx]) auto
    qed
  qed
qed


lemma shorten_cases:
  assumes "shorten L uid (Some req) w = (r, w')"
  shows "(\<exists>d. r = Response StatusOK (JSONURL d) \<and> passesValidation L w req
            \<and> find (existingFilter (targetOf L req) (domainOf L w req) uid) (urls w) = Some d
            \<and> frame w w')
         \<or> (\<exists>d. r = Response StatusCreated (JSONURL d) \<and> passesValidation L w req
            \<and> find (existingFilter (targetOf L req) (domainOf L w req) uid) (urls w) = None
            \<and> existingFilter (targetOf L req) (domainOf L w req) uid d
            \<and> Clicks d = 0 \<and> ClickHistory d = []
            \<and> urls w' = urls w @ [d] \<and> indexes_admit d (urls w)
            \<and> sameEnv w w' \<and> demo_urls w' = demo_urls w)
         \<or> ((r = Panic \<or> (\<exists>msg. r = Response StatusBadRequest (Text msg))
              \<or> (\<exists>msg. r = Response StatusInternalServerError (Text msg))) \<and> frame w w')"
proof (cases "passesValidation L w req \<and> connected w")
  case False
  with assms show ?thesis
    by (auto simp: shorten_def Let_def passesValidation_def targetOf_def domainOf_def customOf_def
        split: if_splits)
next
  case True
  let ?flt = "existingFilter (targetOf L req) (domainOf L w req) uid"
  obtain f w1 where f: "FindOne ?flt w = (f, w1)" by (cases "FindOne ?flt w")
  note fr1 = FindOne_frame [OF f] and res = FindOne_result [OF f]
  from True have sh: "shorten L uid (Some req) w =
     (case FindOne ?flt w of
           (Found existingURL, w1) \<Rightarrow> (Response StatusOK (JSONURL existingURL), w1)
         | (ErrOther, w1) \<Rightarrow> (Response StatusInternalServerError (Text ''database error''), w1)
         | (ErrNoDocuments, w1) \<Rightarrow>
           (case (if customOf L req = [] then generateReadableCode L (targetOf L req) w1 else (customOf L req, w1)) of
              (code, w2) \<Rightarrow>
              (case (if sanitizeInput L (sr_Expires req) \<noteq> []
                     then (case parseRFC3339 L (sanitizeInput L (sr_Expires req)) of Some t \<Rightarrow> Inr (Some t) | None \<Rightarrow> Inl ())
                     else Inr (Some (addYears L (now w2) 5))) of
                 Inl _ \<Rightarrow>
                   (Response StatusBadRequest (Text ''invalid expires format, use RFC3339 (e.g., 2025-12-31T23:59:59Z)''), w2)
               | Inr expiresAt \<Rightarrow>
                   checkAndInsert
                     \<lparr>ID = 0, ShortURL = code, LongURL = targetOf L req, Domain = domainOf L w req,
                      Tags = sanitizeStringSlice L (sr_Tags req), UserID = uid, CreatedAt = now w2,
                      ExpiresAt = expiresAt, Clicks = 0, IsActive = True,
                      LastClicked = None, ClickHistory = []\<rparr> w2)))"
    unfolding shorten_def Let_def passesValidation_def targetOf_def domainOf_def customOf_def
    by auto
  show ?thesis
  proof (cases f)
    case (Found d)
    with res have "find ?flt (urls w) = Some d" by (auto split: if_splits option.splits)
    with assms sh f Found fr1 True show ?thesis by auto
  next
    case ErrOther
    with assms sh f fr1 show ?thesis by auto
  next
    case ErrNoDocuments
    with res have none: "find ?flt (urls w) = None" by (auto split: if_splits option.splits)
    obtain code w2 where c: "(if customOf L req = [] then generateReadableCode L (targetOf L req) w1
                              else (customOf L req, w1)) = (code, w2)"
      by (cases "if customOf L req = [] then generateReadableCode L (targetOf L req) w1 else (customOf L req, w1)")
    have fr2: "frame w1 w2" using c generateReadableCode_frame by (auto split: if_splits)
    have fr: "frame w w2" using fr1 fr2 by (rule frame_trans)
    let ?e = "if sanitizeInput L (sr_Expires req) \<noteq> []
                     then (case parseRFC3339 L (sanitizeInput L (sr_Expires req)) of Some t \<Rightarrow> Inr (Some t) | None \<Rightarrow> Inl ())
                     else Inr (Some (addYears L (now w2) 5))"
    show ?thesis
    proof (cases ?e)
      case (Inl a)
      with assms sh f ErrNoDocuments c fr show ?thesis by (auto simp del: frame_refl)
    next
      case (Inr expiresAt)
      let ?u = "\<lparr>ID = 0, ShortURL = code, LongURL = targetOf L req, Domain = domainOf L w req,
                      Tags = sanitizeStringSlice L (sr_Tags req), UserID = uid, CreatedAt = now w2,
                      ExpiresAt = expiresAt, Clicks = 0, IsActive = True,
                      LastClicked = None, ClickHistory = []\<rparr>"
      have ci: "checkAndInsert ?u w2 = (r, w')"
        using assms sh f ErrNoDocuments c Inr by simp
      from checkAndInsert_cases [OF ci] show ?thesis
      proof
        assume "\<exists>d sfx. r = Response StatusCreated (JSONURL d)
            \<and> d = ?u\<lparr>ID := ID d, ShortURL := ShortURL ?u @ sfx\<rparr>
            \<and> (length sfx = 0 \<or> length sfx = 2)
            \<and> (sfx = [] \<longleftrightarrow> find (\<lambda>e. ShortURL e = ShortURL ?u) (urls w2) = None)
            \<and> urls w' = urls w2 @ [d] \<and> indexes_admit d (urls w2)
            \<and> sameEnv w2 w' \<and> demo_urls w' = demo_urls w2"
        then obtain d sfx where d: "r = Response StatusCreated (JSONURL d)"
            "d = ?u\<lparr>ID := ID d, ShortURL := ShortURL ?u @ sfx\<rparr>"
            "urls w' = urls w2 @ [d]" "indexes_admit d (urls w2)"
            "sameEnv w2 w'" "demo_urls w' = demo_urls w2" by blast
        from d(2) have "LongURL d = targetOf L req" "Domain d = domainOf L w req" "UserID d = uid"
          "IsActive d" "Clicks d = 0" "ClickHistory d = []"
          by (metis URLData.select_convs URLData.surjective URLData.update_convs)+
        then have "existingFilter (targetOf L req) (domainOf L w req) uid d" "Clicks d = 0" "ClickHistory d = []"
          by (simp_all add: existingFilter_def)
        moreover have "urls w' = urls w @ [d]" "indexes_admit d (urls w)" "sameEnv w w'" "demo_urls w' = demo_urls w"
          using d fr by (auto simp: frame_def sameEnv_def)
        ultimately show ?thesis using d(1) none True by blast
      next
        assume "\<exists>msg. r = Response StatusInternalServerError (Text msg) \<and> frame w2 w'"
        with fr show ?thesis using frame_trans by blast
      qed
    qed
  qed
qed

lemma find_Some_mem: "find P xs = Some d \<Longrightarrow> d \<in> set xs \<and> P d"
  by (induction xs) (auto split: if_splits)

lemma find_ex_Some: "d \<in> set xs \<Longrightarrow> P d \<Longrightarrow> \<exists>d'. find P xs = Some d'"
  by (cases "find P xs") (auto simp: find_None_iff)

lemma find_append_new: "find P xs = None \<Longrightarrow> P d \<Longrightarrow> find P (xs @ [d]) = Some d"
  by (induction xs) (auto split: if_splits)

lemma active_long_unique:
  assumes "activeLongURLsDistinct ds" "d \<in> set ds" "d' \<in> set ds" "IsActive d" "IsActive d'"
    "LongURL d = LongURL d'"
  shows "d = d'"
proof -
  have "inj_on LongURL (set (filter IsActive ds))"
    using assms(1) by (simp add: activeLongURLsDistinct_def distinct_map)
  then show ?thesis using assms(2-) by (auto dest: inj_onD)
qed

lemma shorten_existing:
  assumes "passesValidation L w req" "connected w" "\<not> db_fault w (db_ops w)"
    and "find (existingFilter (targetOf L req) (domainOf L w req) uid) (urls w) = Some d"
  shows "shorten L uid (Some req) w = (Response StatusOK (JSONURL d), w\<lparr>db_ops := db_ops w + 1\<rparr>)"
  using assms
  unfolding shorten_def Let_def passesValidation_def targetOf_def domainOf_def customOf_def
  by (auto simp: FindOne_def db_step_def)

lemma passesValidation_env:
  "sameEnv w w' \<Longrightarrow> passesValidation L w' req = passesValidation L w req"
  by (simp add: passesValidation_def domainOf_def sameEnv_def validateURL_env [of w' w])

lemma domainOf_env: "sameEnv w w' \<Longrightarrow> domainOf L w' req = domainOf L w req"
  by (simp add: domainOf_def sameEnv_def)

section \<open>Evaluation on the examples\<close>

lemma lib_simps:
  "sha256Sum testLib = testSha256" "urlParse testLib = testUrlParse"
  "htmlEscape testLib = testHtmlEscape" "utf8Decode testLib = map of_char"
  "utf8Encode testLib = map char_of" "utf8Valid testLib = list_all (\<lambda>c. (of_char c :: nat) < 128)"
  "trimSpace testLib = testTrimSpace" "toLower testLib = testToLower"
  "parseRFC3339 testLib = (\<lambda>s. None)" "parseDate testLib = (\<lambda>s. None)"
  "endOfDay testLib = (\<lambda>t. t)" "addYears testLib = (\<lambda>t n. t + n * 365 * 24 * hour + 24 * hour)"
  "formatRFC3339 testLib = (\<lambda>t. ''2025-11-01T12:26:40Z'')"
  by (simp_all add: testLib_def)

lemmas url_eval = testSha256_def testUrlParse_def testHtmlEscape_def testTrimSpace_def
  testToLower_def asciiSpace_def exampleCom_def exampleOrg_def localApp_def rapidLink_def

lemmas store_eval = FindOne_def InsertOne_def UpdateOne_def db_step_def NewObjectID_def
  indexes_admit_def shortURLIndex_admits_def longURLIndex_admits_def Intn_def


lemma base_exampleCom: "base58Code testLib exampleCom = ''3gU4BdRtKh''"
  by (simp add: base58Code_def lib_simps testSha256_def setBytes_def encodeBase58_def
        encodeLoop.simps padBase58.simps base58Alphabet_def exampleCom_def)


lemma decode_filter_encode:
  "map char_of (filter P (map of_char s :: nat list)) = filter (\<lambda>c. P (of_char c)) s"
  by (induction s) simp_all

lemma sanitize_testLib:
  "sanitizeInput testLib s =
     testTrimSpace (filter (\<lambda>c. (of_char c :: nat) = 10 \<or> (of_char c :: nat) = 9 \<or> (of_char c :: nat) = 13
                                \<or> ((of_char c :: nat) \<ge> 32 \<and> (of_char c :: nat) \<noteq> 127))
                     (filter (\<lambda>c. of_char c \<noteq> (0::nat)) (testHtmlEscape s)))"
  by (simp add: sanitizeInput_def lib_simps decode_filter_encode)

lemma sanitize_exampleCom: "sanitizeInput testLib exampleCom = exampleCom"
  by (simp add: sanitize_testLib url_eval)


lemma validate_exampleCom: "ALLOW_LOCALHOST w = [] \<Longrightarrow> validateURL testLib w exampleCom"
  by (simp add: validateURL_def lib_simps url_eval)


lemma validate_rapidLink: "ALLOW_LOCALHOST w = [] \<Longrightarrow> validateURL testLib w rapidLink"
  by (simp add: validateURL_def lib_simps url_eval)

lemma sanitize_nil: "sanitizeInput testLib [] = []"
  by (simp add: sanitize_testLib url_eval)

lemma first_create:
  "shorten testLib ''u1'' (Some exampleRequest) emptyWorld
   = (Response StatusCreated (JSONURL exampleLink), createdWorld)"
  by (simp add: shorten_def Let_def exampleRequest_def sanitize_exampleCom sanitize_nil
      sanitizeStringSlice_def emptyWorld_def validate_exampleCom validate_rapidLink
      validateCustomURL_def generateReadableCode_def base_exampleCom checkAndInsert_def
      store_eval existingFilter_def exampleLink_def createdWorld_def
      lib_simps hour_def exampleNow_def)

lemma processSingleURL_existing:
  assumes "validateURL L w (bq_LongURL row)" "connected w" "\<not> db_fault w (db_ops w)"
    and "find (existingFilter (bq_LongURL row) (bulkDomainOf w row) uid) (urls w) = Some d"
  shows "\<exists>res. processSingleURL L row uid w = (Some res, w\<lparr>db_ops := db_ops w + 1\<rparr>)
           \<and> br_Success res \<and> br_ShortURL res = ShortURL d \<and> br_LongURL res = bq_LongURL row
           \<and> br_Error res = []"
  using assms unfolding processSingleURL_def Let_def bulkDomainOf_def
  by (auto simp: FindOne_def db_step_def)



lemma sanitize_promo: "sanitizeInput testLib ''promo'' = ''promo''"
  by (simp add: sanitize_testLib url_eval)

lemma validate_promo: "validateCustomURL testLib ''promo''"
  by (simp add: validateCustomURL_def customChar_def lib_simps)

lemmas ex_eval = sanitize_exampleCom [unfolded exampleCom_def]
  validate_exampleCom [unfolded exampleCom_def] validate_rapidLink [unfolded rapidLink_def]
  base_exampleCom [unfolded exampleCom_def]

lemmas name_defs = exampleCom_def exampleOrg_def localApp_def rapidLink_def exampleNow_def

section \<open>Custom codes\<close>

text \<open>
  Claim C2. The claim asks for a conflict (409) and nothing persisted when the custom code
  is active under a different target. Here user \<open>u1\<close> asks for the custom code \<open>promo\<close>,
  which user \<open>u2\<close> holds for another target: \<open>shorten\<close> answers 201, not 409, with the code
  \<open>promo12\<close> (the custom code and two random symbols), and the collection holds both
  links afterwards. The bulk row with the same data is refused with the already-exists
  error and leaves the collection as it was.
\<close>

theorem shorten_custom_code_taken:
  "fst (shorten testLib ''u1'' (Some promoRequest) promoWorld)
     = Response StatusCreated (JSONURL
         \<lparr>ID = 2, ShortURL = ''promo12'', LongURL = exampleCom, Domain = rapidLink, Tags = [],
          UserID = ''u1'', CreatedAt = exampleNow, ExpiresAt = Some 1919766400000000000,
          Clicks = 0, IsActive = True, LastClicked = None, ClickHistory = []\<rparr>)
   \<and> StatusCreated \<noteq> StatusConflict
   \<and> map ShortURL (urls (snd (shorten testLib ''u1'' (Some promoRequest) promoWorld)))
       = [''promo'', ''promo12'']
   \<and> fst (processSingleURL testLib promoRow ''u1'' promoWorld)
       = Some \<lparr>br_LongURL = exampleCom, br_ShortURL = [], br_Domain = rapidLink, br_Tags = [],
               br_Success = False,
               br_Error = ''Failed to generate short code: custom alias '' @ [CHR 0x27]
                          @ ''promo'' @ [CHR 0x27] @ '' already exists'',
               br_CreatedAt = []\<rparr>
   \<and> urls (snd (processSingleURL testLib promoRow ''u1'' promoWorld)) = urls promoWorld"
  by (simp add: shorten_def Let_def promoRequest_def promoWorld_def promoLink_def promoRow_def
      ex_eval name_defs sanitize_nil sanitize_promo validate_promo
      sanitizeStringSlice_def emptyWorld_def
      checkAndInsert_def processSingleURL_def generateShortCodeForBulk_def
      store_eval existingFilter_def lib_simps hour_def status_defs
      base58Alphabet_def numeral_2_eq_2)

section \<open>Collision resolution\<close>

lemma generateBase58Suffix_ops: "generateBase58Suffix n w = (s, w1) \<Longrightarrow> db_ops w1 = db_ops w"
proof (induction n arbitrary: w s w1)
  case 0
  then show ?case by simp
next
  case (Suc n)
  obtain k wa where i: "Intn 58 w = (k, wa)" by (cases "Intn 58 w")
  obtain rest wb where r: "generateBase58Suffix n wa = (rest, wb)"
    by (cases "generateBase58Suffix n wa")
  have "db_ops wa = db_ops w" using i by (auto simp: Intn_def)
  moreover have "db_ops wb = db_ops wa" using Suc.IH [OF r] .
  moreover have "w1 = wb" using Suc.prems i r by simp
  ultimately show ?case by simp
qed

lemma generateReadableCode_run:
  assumes "connected w" "generateReadableCode L u w = (c, w1)"
  shows "db_ops w1 = db_ops w + 1
         \<and> ((c = base58Code L u \<and> \<not> db_fault w (db_ops w)
              \<and> find (\<lambda>d. ShortURL d = base58Code L u) (urls w) = None)
             \<or> (\<exists>sfx. c = base58Code L u @ sfx \<and> length sfx = 2
                  \<and> (db_fault w (db_ops w)
                      \<or> find (\<lambda>d. ShortURL d = base58Code L u) (urls w) \<noteq> None)))"
proof -
  let ?flt = "\<lambda>d. ShortURL d = base58Code L u"
  obtain f wa where f: "FindOne ?flt w = (f, wa)" by (cases "FindOne ?flt w")
  note ops = FindOne_ops [OF f] and res = FindOne_result [OF f]
  show ?thesis
  proof (cases f)
    case ErrNoDocuments
    with res have "\<not> db_fault w (db_ops w)" "find ?flt (urls w) = None"
      by (auto split: if_splits option.splits)
    moreover have "c = base58Code L u" "w1 = wa"
      using assms f ErrNoDocuments by (auto simp: generateReadableCode_def Let_def)
    ultimately show ?thesis using ops by simp
  next
    case ErrOther
    with res have flt: "db_fault w (db_ops w)" by (auto split: if_splits option.splits)
    obtain sfx wb where g: "generateBase58Suffix 2 wa = (sfx, wb)"
      by (cases "generateBase58Suffix 2 wa")
    have "c = base58Code L u @ sfx" "w1 = wb"
      using assms f ErrOther g by (auto simp: generateReadableCode_def Let_def)
    then show ?thesis
      using flt ops generateBase58Suffix_ops [OF g] generateBase58Suffix_length [OF g] by auto
  next
    case (Found e)
    with res have flt: "find ?flt (urls w) \<noteq> None" by (auto split: if_splits option.splits)
    obtain sfx wb where g: "generateBase58Suffix 2 wa = (sfx, wb)"
      by (cases "generateBase58Suffix 2 wa")
    have "c = base58Code L u @ sfx" "w1 = wb"
      using assms f Found g by (auto simp: generateReadableCode_def Let_def)
    then show ?thesis
      using flt ops generateBase58Suffix_ops [OF g] generateBase58Suffix_length [OF g] by auto
  qed
qed

lemma InsertOne_ops: "InsertOne d w = (r, w1) \<Longrightarrow> db_ops w1 = db_ops w + 1"
  by (auto simp: InsertOne_def db_step_def NewObjectID_def Let_def split: if_splits prod.splits)

lemma checkAndInsert_ops:
  assumes "checkAndInsert u w = (r, w')"
  shows "db_ops w < db_ops w' \<and> db_ops w' \<le> db_ops w + 2"
proof -
  obtain f w1 where f: "FindOne (\<lambda>d. ShortURL d = ShortURL u) w = (f, w1)"
    by (cases "FindOne (\<lambda>d. ShortURL d = ShortURL u) w")
  note ops = FindOne_ops [OF f]
  show ?thesis
  proof (cases f)
    case ErrOther
    with assms f ops show ?thesis by (auto simp: checkAndInsert_def)
  next
    case ErrNoDocuments
    obtain o2 w3 where ins: "InsertOne u w1 = (o2, w3)" by (cases "InsertOne u w1")
    with assms f ErrNoDocuments ops InsertOne_ops [OF ins] show ?thesis
      by (cases o2) (auto simp: checkAndInsert_def)
  next
    case (Found e)
    obtain sfx w2 where g: "generateBase58Suffix 2 w1 = (sfx, w2)"
      by (cases "generateBase58Suffix 2 w1")
    obtain o2 w3 where ins: "InsertOne (u\<lparr>ShortURL := ShortURL u @ sfx\<rparr>) w2 = (o2, w3)"
      by (cases "InsertOne (u\<lparr>ShortURL := ShortURL u @ sfx\<rparr>) w2")
    with assms f Found g ops InsertOne_ops [OF ins] generateBase58Suffix_ops [OF g] show ?thesis
      by (cases o2) (auto simp: checkAndInsert_def)
  qed
qed


lemma shorten_unfold:
  assumes "passesValidation L w req" "connected w"
  shows "shorten L uid (Some req) w =
     (case FindOne (existingFilter (targetOf L req) (domainOf L w req) uid) w of
           (Found existingURL, w1) \<Rightarrow> (Response StatusOK (JSONURL existingURL), w1)
         | (ErrOther, w1) \<Rightarrow> (Response StatusInternalServerError (Text ''database error''), w1)
         | (ErrNoDocuments, w1) \<Rightarrow>
           (case (if customOf L req = [] then generateReadableCode L (targetOf L req) w1 else (customOf L req, w1)) of
              (code, w2) \<Rightarrow>
              (case (if sanitizeInput L (sr_Expires req) \<noteq> []
                     then (case parseRFC3339 L (sanitizeInput L (sr_Expires req)) of Some t \<Rightarrow> Inr (Some t) | None \<Rightarrow> Inl ())
                     else Inr (Some (addYears L (now w2) 5))) of
                 Inl _ \<Rightarrow>
                   (Response StatusBadRequest (Text ''invalid expires format, use RFC3339 (e.g., 2025-12-31T23:59:59Z)''), w2)
               | Inr expiresAt \<Rightarrow>
                   checkAndInsert
                     \<lparr>ID = 0, ShortURL = code, LongURL = targetOf L req, Domain = domainOf L w req,
                      Tags = sanitizeStringSlice L (sr_Tags req), UserID = uid, CreatedAt = now w2,
                      ExpiresAt = expiresAt, Clicks = 0, IsActive = True,
                      LastClicked = None, ClickHistory = []\<rparr> w2)))"
  using assms
  unfolding shorten_def Let_def passesValidation_def targetOf_def domainOf_def customOf_def
  by auto

lemma shorten_invalid:
  assumes "\<not> (passesValidation L w req \<and> connected w)" "shorten L uid (Some req) w = (r, w')"
  shows "w' = w \<and> (r = Panic \<or> (\<exists>msg. r = Response StatusBadRequest (Text msg)))"
  using assms
  by (auto simp: shorten_def Let_def passesValidation_def targetOf_def domainOf_def customOf_def
        split: if_splits)

lemma shorten_ops:
  assumes "shorten L uid decoded w = (r, w')"
  shows "db_ops w \<le> db_ops w' \<and> db_ops w' \<le> db_ops w + 4"
proof (cases decoded)
  case None
  with assms show ?thesis by (simp add: shorten_def)
next
  case (Some req)
  show ?thesis
  proof (cases "passesValidation L w req \<and> connected w")
    case False
    with assms Some shorten_invalid [of L w req uid r w'] show ?thesis by simp
  next
    case True
    let ?flt = "existingFilter (targetOf L req) (domainOf L w req) uid"
    obtain f w1 where f: "FindOne ?flt w = (f, w1)" by (cases "FindOne ?flt w")
    note ops1 = FindOne_ops [OF f]
    note sh = shorten_unfold [of L w req uid] assms [unfolded Some]
    show ?thesis
    proof (cases f)
      case (Found d)
      with sh True f ops1 show ?thesis by auto
    next
      case ErrOther
      with sh True f ops1 show ?thesis by auto
    next
      case ErrNoDocuments
      obtain code w2 where c: "(if customOf L req = [] then generateReadableCode L (targetOf L req) w1
                              else (customOf L req, w1)) = (code, w2)"
        by (cases "if customOf L req = [] then generateReadableCode L (targetOf L req) w1 else (customOf L req, w1)")
      have c1: "connected w1" using True FindOne_frame [OF f] by (simp add: frame_def sameEnv_def)
      have ops2: "db_ops w1 \<le> db_ops w2 \<and> db_ops w2 \<le> db_ops w1 + 1"
        using c generateReadableCode_run [OF c1] by (auto split: if_splits)
      let ?e = "if sanitizeInput L (sr_Expires req) \<noteq> []
                     then (case parseRFC3339 L (sanitizeInput L (sr_Expires req)) of Some t \<Rightarrow> Inr (Some t) | None \<Rightarrow> Inl ())
                     else Inr (Some (addYears L (now w2) 5))"
      show ?thesis
      proof (cases ?e)
        case (Inl a)
        with sh True f ErrNoDocuments c ops1 ops2 show ?thesis by auto
      next
        case (Inr expiresAt)
        let ?u = "\<lparr>ID = 0, ShortURL = code, LongURL = targetOf L req, Domain = domainOf L w req,
                      Tags = sanitizeStringSlice L (sr_Tags req), UserID = uid, CreatedAt = now w2,
                      ExpiresAt = expiresAt, Clicks = 0, IsActive = True,
                      LastClicked = None, ClickHistory = []\<rparr>"
        have ci: "checkAndInsert ?u w2 = (r, w')"
          using sh True f ErrNoDocuments c Inr by simp
        from checkAndInsert_ops [OF ci] ops1 ops2 show ?thesis by simp
      qed
    qed
  qed
qed

lemma shorten_created_code:
  assumes "shorten L uid (Some req) w = (Response StatusCreated (JSONURL d), w')"
  shows "(customOf L req = [] \<longrightarrow>
            (\<exists>s1 s2. ShortURL d = base58Code L (targetOf L req) @ s1 @ s2
               \<and> (length s1 = 0 \<or> length s1 = 2) \<and> (length s2 = 0 \<or> length s2 = 2)))
         \<and> (customOf L req \<noteq> [] \<longrightarrow>
            (\<exists>s2. ShortURL d = customOf L req @ s2 \<and> (length s2 = 0 \<or> length s2 = 2)))"
proof (cases "passesValidation L w req \<and> connected w")
  case False
  with assms shorten_invalid [of L w req uid _ w'] show ?thesis by (auto simp: status_defs)
next
  case True
  let ?flt = "existingFilter (targetOf L req) (domainOf L w req) uid"
  obtain f w1 where f: "FindOne ?flt w = (f, w1)" by (cases "FindOne ?flt w")
  note sh = shorten_unfold [of L w req uid] assms
  show ?thesis
  proof (cases f)
    case (Found e)
    with sh True f show ?thesis by (auto simp: status_defs)
  next
    case ErrOther
    with sh True f show ?thesis by (auto simp: status_defs)
  next
    case ErrNoDocuments
    obtain code w2 where c: "(if customOf L req = [] then generateReadableCode L (targetOf L req) w1
                              else (customOf L req, w1)) = (code, w2)"
      by (cases "if customOf L req = [] then generateReadableCode L (targetOf L req) w1 else (customOf L req, w1)")
    have c1: "connected w1" using True FindOne_frame [OF f] by (simp add: frame_def sameEnv_def)
    have code: "(customOf L req = [] \<longrightarrow> (\<exists>s1. code = base58Code L (targetOf L req) @ s1
                    \<and> (length s1 = 0 \<or> length s1 = 2)))
                \<and> (customOf L req \<noteq> [] \<longrightarrow> code = customOf L req)"
    proof (cases "customOf L req = []")
      case True
      with c have "generateReadableCode L (targetOf L req) w1 = (code, w2)" by simp
      from generateReadableCode_run [OF c1 this] True show ?thesis
        by (metis append_Nil2 list.size(3))
    next
      case False
      with c show ?thesis by simp
    qed
    let ?e = "if sanitizeInput L (sr_Expires req) \<noteq> []
                     then (case parseRFC3339 L (sanitizeInput L (sr_Expires req)) of Some t \<Rightarrow> Inr (Some t) | None \<Rightarrow> Inl ())
                     else Inr (Some (addYears L (now w2) 5))"
    show ?thesis
    proof (cases ?e)
      case (Inl a)
      with sh True f ErrNoDocuments c show ?thesis by (auto simp: status_defs)
    next
      case (Inr expiresAt)
      let ?u = "\<lparr>ID = 0, ShortURL = code, LongURL = targetOf L req, Domain = domainOf L w req,
                      Tags = sanitizeStringSlice L (sr_Tags req), UserID = uid, CreatedAt = now w2,
                      ExpiresAt = expiresAt, Clicks = 0, IsActive = True,
                      LastClicked = None, ClickHistory = []\<rparr>"
      have ci: "checkAndInsert ?u w2 = (Response StatusCreated (JSONURL d), w')"
        using sh True f ErrNoDocuments c Inr by simp
      from checkAndInsert_cases [OF ci]
      obtain sfx where d: "d = ?u\<lparr>ID := ID d, ShortURL := ShortURL ?u @ sfx\<rparr>"
        "length sfx = 0 \<or> length sfx = 2" by (auto simp: status_defs)
      from d(1) have "ShortURL d = code @ sfx"
        by (metis URLData.select_convs(2) URLData.surjective URLData.update_convs(2))
      have sd: "ShortURL d = code @ sfx" by fact
      show ?thesis
      proof (cases "customOf L req = []")
        case True
        with code obtain s1 where s1: "code = base58Code L (targetOf L req) @ s1"
          "length s1 = 0 \<or> length s1 = 2" by blast
        have "ShortURL d = base58Code L (targetOf L req) @ s1 @ sfx" using sd s1(1) by simp
        with s1(2) d(2) True show ?thesis by blast
      next
        case False
        with code have "code = customOf L req" by simp
        with sd d(2) False show ?thesis by auto
      qed
    qed
  qed
qed

lemma crowded_generate:
  "generateReadableCode testLib exampleCom crowdedWorld
   = (''3gU4BdRtKh12'', crowdedWorld\<lparr>rand_pos := 2, db_ops := 1\<rparr>)"
  by (simp add: generateReadableCode_def base_exampleCom crowdedWorld_def takenLink_def
      takenLink2_def emptyWorld_def store_eval base58Alphabet_def numeral_2_eq_2)

lemma crowded_shorten:
  "shorten testLib ''u1'' (Some exampleRequest) crowdedWorld
   = (Response StatusCreated (JSONURL crowdedLink),
      crowdedWorld\<lparr>urls := urls crowdedWorld @ [crowdedLink], next_oid := 4, rand_pos := 4,
                     db_ops := 4\<rparr>)"
  by (simp add: shorten_def Let_def exampleRequest_def crowdedWorld_def takenLink_def
      takenLink2_def crowdedLink_def ex_eval name_defs sanitize_nil
      sanitizeStringSlice_def emptyWorld_def validateCustomURL_def generateReadableCode_def
      checkAndInsert_def store_eval existingFilter_def lib_simps hour_def
      base58Alphabet_def numeral_2_eq_2)

lemma crowded_row:
  "processSingleURL testLib exampleRow ''u1'' crowdedWorld
   = (Some \<lparr>br_LongURL = exampleCom, br_ShortURL = [], br_Domain = rapidLink, br_Tags = [],
            br_Success = False, br_Error = ''Database error'', br_CreatedAt = []\<rparr>,
      crowdedWorld\<lparr>next_oid := 4, rand_pos := 2, db_ops := 3\<rparr>)"
  by (simp add: processSingleURL_def generateShortCodeForBulk_def Let_def exampleRow_def
      crowdedWorld_def takenLink_def takenLink2_def ex_eval name_defs
      emptyWorld_def generateReadableCode_def
      store_eval existingFilter_def lib_simps hour_def
      base58Alphabet_def numeral_2_eq_2)

lemma admit_short_absent:
  "indexes_admit d ds \<Longrightarrow> ShortURL d \<notin> set (map ShortURL ds)"
  by (auto simp: indexes_admit_def shortURLIndex_admits_def list_all_iff)




section \<open>The unique indexes\<close>

lemma sanitize_exampleOrg: "sanitizeInput testLib exampleOrg = exampleOrg"
  by (simp add: sanitize_testLib url_eval)

lemma validate_exampleOrg: "ALLOW_LOCALHOST w = [] \<Longrightarrow> validateURL testLib w exampleOrg"
  by (simp add: validateURL_def lib_simps url_eval)

lemma other_domain_shorten:
  "shorten testLib ''u1'' (Some otherDomainRequest) createdWorld
   = (Response StatusInternalServerError (Text ''failed to create short URL''),
      createdWorld\<lparr>next_oid := 3, rand_pos := 2, db_ops := 8\<rparr>)"
  by (simp add: shorten_def Let_def otherDomainRequest_def createdWorld_def exampleLink_def
      ex_eval name_defs sanitize_nil sanitize_exampleOrg [unfolded exampleOrg_def]
      validate_exampleOrg [unfolded exampleOrg_def]
      sanitizeStringSlice_def emptyWorld_def validateCustomURL_def generateReadableCode_def
      checkAndInsert_def store_eval existingFilter_def lib_simps hour_def
      base58Alphabet_def numeral_2_eq_2)

lemma other_domain_insert:
  "InsertOne otherDomainLink createdWorld = (None, createdWorld\<lparr>db_ops := 5\<rparr>)"
  by (simp add: otherDomainLink_def createdWorld_def exampleLink_def emptyWorld_def store_eval
      name_defs)

lemma longURLIndex_admits_iff:
  "longURLIndex_admits d ds
   \<longleftrightarrow> (IsActive d \<longrightarrow> (\<forall>e\<in>set ds. IsActive e \<longrightarrow> LongURL e \<noteq> LongURL d))"
  by (auto simp: longURLIndex_admits_def list_all_iff)

lemma active_distinct_snoc:
  "activeLongURLsDistinct (ds @ [d])
   \<longleftrightarrow> activeLongURLsDistinct ds \<and> longURLIndex_admits d ds"
  by (force simp: activeLongURLsDistinct_def longURLIndex_admits_iff image_iff)

lemma short_distinct_snoc:
  "shortURLsDistinct (ds @ [d]) \<longleftrightarrow> shortURLsDistinct ds \<and> shortURLIndex_admits d ds"
  by (force simp: shortURLsDistinct_def shortURLIndex_admits_def list_all_iff image_iff)

lemma InsertOne_indexes:
  assumes "InsertOne d w = (r, w')" "activeLongURLsDistinct (urls w)" "shortURLsDistinct (urls w)"
  shows "activeLongURLsDistinct (urls w') \<and> shortURLsDistinct (urls w')"
proof (cases r)
  case None
  with assms InsertOne_None [of d w w'] show ?thesis by (simp add: frame_def)
next
  case (Some oid)
  with assms InsertOne_Some [of d w oid w'] show ?thesis
    by (simp add: active_distinct_snoc short_distinct_snoc indexes_admit_def)
qed

lemma update_first_keys:
  assumes "\<And>d. LongURL (upd d) = LongURL d" "\<And>d. IsActive (upd d) = IsActive d"
    "\<And>d. ShortURL (upd d) = ShortURL d"
  shows "map LongURL (filter IsActive (update_first flt upd ds)) = map LongURL (filter IsActive ds)
         \<and> map ShortURL (update_first flt upd ds) = map ShortURL ds"
  by (induction ds) (simp_all add: assms)

lemma UpdateOne_click_indexes:
  assumes "UpdateOne flt (clickUpdate t ip ua) w = (r, w')"
    "activeLongURLsDistinct (urls w)" "shortURLsDistinct (urls w)"
  shows "activeLongURLsDistinct (urls w') \<and> shortURLsDistinct (urls w')"
proof -
  have "urls w' = urls w \<or> urls w' = update_first flt (clickUpdate t ip ua) (urls w)"
    using assms(1) by (auto simp: UpdateOne_def db_step_def split: if_splits)
  moreover have "map LongURL (filter IsActive (update_first flt (clickUpdate t ip ua) (urls w)))
                  = map LongURL (filter IsActive (urls w))
                 \<and> map ShortURL (update_first flt (clickUpdate t ip ua) (urls w)) = map ShortURL (urls w)"
    by (rule update_first_keys) (simp_all add: clickUpdate_def)
  ultimately show ?thesis using assms(2,3)
    by (auto simp: activeLongURLsDistinct_def shortURLsDistinct_def)
qed

lemma deactivate_active_subset:
  "set (map LongURL (filter IsActive (map (\<lambda>d. if flt d then d\<lparr>IsActive := False\<rparr> else d) ds)))
   \<subseteq> set (map LongURL (filter IsActive ds))"
  by (induction ds) auto

lemma deactivate_distinct:
  "distinct (map LongURL (filter IsActive ds)) \<Longrightarrow>
   distinct (map LongURL (filter IsActive (map (\<lambda>d. if flt d then d\<lparr>IsActive := False\<rparr> else d) ds)))"
proof (induction ds)
  case Nil
  then show ?case by simp
next
  case (Cons d ds)
  let ?g = "\<lambda>d. if flt d then d\<lparr>IsActive := False\<rparr> else d"
  have ih: "distinct (map LongURL (filter IsActive (map ?g ds)))"
    using Cons by (simp split: if_splits)
  show ?case
  proof (cases "IsActive d \<and> \<not> flt d")
    case True
    then have "LongURL d \<notin> set (map LongURL (filter IsActive ds))" using Cons.prems by simp
    then have "LongURL d \<notin> set (map LongURL (filter IsActive (map ?g ds)))"
      using deactivate_active_subset [of flt ds] by blast
    with True ih show ?thesis by simp
  next
    case False
    with ih show ?thesis by auto
  qed
qed

lemma deactivate_short: "map ShortURL (map (\<lambda>d. if flt d then d\<lparr>IsActive := False\<rparr> else d) ds) = map ShortURL ds"
  by (induction ds) simp_all

lemma Cleanup_indexes:
  assumes "CleanupExpiredURLs w = (r, w')"
    "activeLongURLsDistinct (urls w)" "shortURLsDistinct (urls w)"
  shows "activeLongURLsDistinct (urls w') \<and> shortURLsDistinct (urls w')"
proof -
  let ?flt = "\<lambda>d. (case ExpiresAt d of None \<Rightarrow> False | Some t \<Rightarrow> t \<le> now w) \<and> IsActive d"
  let ?ds = "map (\<lambda>d. if ?flt d then d\<lparr>IsActive := False\<rparr> else d) (urls w)"
  have "urls w' = urls w \<or> urls w' = ?ds"
    using assms(1) by (auto simp: CleanupExpiredURLs_def UpdateMany_def db_step_def split: if_splits)
  moreover have "activeLongURLsDistinct ?ds"
    using assms(2) deactivate_distinct [of "urls w" ?flt] by (simp add: activeLongURLsDistinct_def)
  moreover have "shortURLsDistinct ?ds"
    using assms(3) deactivate_short [of ?flt "urls w"] by (simp only: shortURLsDistinct_def)
  ultimately show ?thesis using assms(2,3) by auto
qed


text \<open>
  Claim C6, refuted as stated. The collection holds the active link of user \<open>u1\<close> for the
  example URL under the default domain. A second active link for the same URL under
  another domain, with a code and an id of its own, is rejected by the index on
  \<open>long_url\<close>: \<open>InsertOne\<close> fails, and \<open>shorten\<close> for that URL and domain answers 500.
\<close>

theorem index_domain_counterexample:
  "urls createdWorld = [exampleLink] \<and> IsActive exampleLink \<and> IsActive otherDomainLink
   \<and> LongURL otherDomainLink = LongURL exampleLink
   \<and> Domain otherDomainLink \<noteq> Domain exampleLink
   \<and> ShortURL otherDomainLink \<noteq> ShortURL exampleLink \<and> ID otherDomainLink \<noteq> ID exampleLink
   \<and> \<not> longURLIndex_admits otherDomainLink (urls createdWorld)
   \<and> InsertOne otherDomainLink createdWorld = (None, createdWorld\<lparr>db_ops := 5\<rparr>)
   \<and> shorten testLib ''u1'' (Some otherDomainRequest) createdWorld
       = (Response StatusInternalServerError (Text ''failed to create short URL''),
          createdWorld\<lparr>next_oid := 3, rand_pos := 2, db_ops := 8\<rparr>)"
  by (simp add: other_domain_insert other_domain_shorten)
     (simp add: createdWorld_def emptyWorld_def exampleLink_def otherDomainLink_def
        longURLIndex_admits_def name_defs)

text \<open>
  Claim C6, as amended. The partial unique index is on \<open>long_url\<close> alone, among active
  links: it admits a document exactly when the document is inactive or no active link
  has its long URL, whatever the domains and the owners. On a collection whose active
  links have distinct long URLs it admits exactly the documents that keep them distinct,
  and two active links of such a collection with the same long URL are the same link.
  Every write of the program to the collection (insert, click update, expiry sweep)
  keeps the long URLs of the active links and the codes of all links distinct.
\<close>

theorem longURL_index_scope:
  "(longURLIndex_admits d ds
      \<longleftrightarrow> (IsActive d \<longrightarrow> (\<forall>e\<in>set ds. IsActive e \<longrightarrow> LongURL e \<noteq> LongURL d)))
   \<and> (activeLongURLsDistinct ds
      \<longrightarrow> (longURLIndex_admits d ds \<longleftrightarrow> activeLongURLsDistinct (ds @ [d])))
   \<and> (activeLongURLsDistinct ds \<and> e1 \<in> set ds \<and> e2 \<in> set ds \<and> IsActive e1 \<and> IsActive e2
       \<and> LongURL e1 = LongURL e2 \<longrightarrow> e1 = e2)
   \<and> (activeLongURLsDistinct (urls w) \<and> shortURLsDistinct (urls w)
      \<longrightarrow> (InsertOne d w = (r, w')
             \<longrightarrow> activeLongURLsDistinct (urls w') \<and> shortURLsDistinct (urls w'))
        \<and> (UpdateOne flt (clickUpdate t ip ua) w = (r2, w2)
             \<longrightarrow> activeLongURLsDistinct (urls w2) \<and> shortURLsDistinct (urls w2))
        \<and> (CleanupExpiredURLs w = (r3, w3)
             \<longrightarrow> activeLongURLsDistinct (urls w3) \<and> shortURLsDistinct (urls w3)))"
proof -
  have a: "longURLIndex_admits d ds
      \<longleftrightarrow> (IsActive d \<longrightarrow> (\<forall>e\<in>set ds. IsActive e \<longrightarrow> LongURL e \<noteq> LongURL d))"
    by (rule longURLIndex_admits_iff)
  have b: "activeLongURLsDistinct ds
      \<longrightarrow> (longURLIndex_admits d ds \<longleftrightarrow> activeLongURLsDistinct (ds @ [d]))"
    by (simp add: active_distinct_snoc)
  have c: "activeLongURLsDistinct ds \<and> e1 \<in> set ds \<and> e2 \<in> set ds \<and> IsActive e1 \<and> IsActive e2
       \<and> LongURL e1 = LongURL e2 \<longrightarrow> e1 = e2"
    using active_long_unique [of ds e1 e2] by blast
  have d: "activeLongURLsDistinct (urls w) \<and> shortURLsDistinct (urls w)
      \<longrightarrow> (InsertOne d w = (r, w')
             \<longrightarrow> activeLongURLsDistinct (urls w') \<and> shortURLsDistinct (urls w'))
        \<and> (UpdateOne flt (clickUpdate t ip ua) w = (r2, w2)
             \<longrightarrow> activeLongURLsDistinct (urls w2) \<and> shortURLsDistinct (urls w2))
        \<and> (CleanupExpiredURLs w = (r3, w3)
             \<longrightarrow> activeLongURLsDistinct (urls w3) \<and> shortURLsDistinct (urls w3))"
    using InsertOne_indexes [of d w r w'] UpdateOne_click_indexes [of flt t ip ua w r2 w2]
      Cleanup_indexes [of w r3 w3] by blast
  from a b c d show ?thesis by (intro conjI)
qed

theorem longURL_index_scope_witness:
  "activeLongURLsDistinct (urls createdWorld) \<and> shortURLsDistinct (urls createdWorld)
   \<and> exampleLink \<in> set (urls createdWorld) \<and> IsActive exampleLink \<and> IsActive otherDomainLink
   \<and> LongURL exampleLink = LongURL otherDomainLink
   \<and> InsertOne otherDomainLink createdWorld = (None, createdWorld\<lparr>db_ops := 5\<rparr>)
   \<and> \<not> longURLIndex_admits otherDomainLink (urls createdWorld)
   \<and> \<not> activeLongURLsDistinct (urls createdWorld @ [otherDomainLink])
   \<and> activeLongURLsDistinct (urls (createdWorld\<lparr>db_ops := 5\<rparr>))
   \<and> activeLongURLsDistinct
       (urls (snd (UpdateOne (\<lambda>d. ID d = 1) (clickUpdate exampleNow ''203.0.113.9'' ''curl'') createdWorld)))
   \<and> activeLongURLsDistinct (urls (snd (CleanupExpiredURLs createdWorld)))"
proof -
  have inv: "activeLongURLsDistinct (urls createdWorld)" "shortURLsDistinct (urls createdWorld)"
    by (simp_all add: createdWorld_def emptyWorld_def activeLongURLsDistinct_def
        shortURLsDistinct_def)
  have mem: "exampleLink \<in> set (urls createdWorld)" "IsActive exampleLink" "IsActive otherDomainLink"
    "LongURL exampleLink = LongURL otherDomainLink"
    by (simp_all add: createdWorld_def emptyWorld_def exampleLink_def otherDomainLink_def)
  have u: "UpdateOne (\<lambda>d. ID d = 1) (clickUpdate exampleNow ''203.0.113.9'' ''curl'') createdWorld
           = (fst (UpdateOne (\<lambda>d. ID d = 1) (clickUpdate exampleNow ''203.0.113.9'' ''curl'') createdWorld),
              snd (UpdateOne (\<lambda>d. ID d = 1) (clickUpdate exampleNow ''203.0.113.9'' ''curl'') createdWorld))"
    by simp
  have c: "CleanupExpiredURLs createdWorld
           = (fst (CleanupExpiredURLs createdWorld), snd (CleanupExpiredURLs createdWorld))"
    by simp
  note t = longURL_index_scope [of otherDomainLink "urls createdWorld" exampleLink exampleLink
      createdWorld None "createdWorld\<lparr>db_ops := 5\<rparr>" "\<lambda>d. ID d = 1" exampleNow
      "''203.0.113.9''" "''curl''"
      "fst (UpdateOne (\<lambda>d. ID d = 1) (clickUpdate exampleNow ''203.0.113.9'' ''curl'') createdWorld)"
      "snd (UpdateOne (\<lambda>d. ID d = 1) (clickUpdate exampleNow ''203.0.113.9'' ''curl'') createdWorld)"
      "fst (CleanupExpiredURLs createdWorld)" "snd (CleanupExpiredURLs createdWorld)"]
  have na: "\<not> longURLIndex_admits otherDomainLink (urls createdWorld)"
    using t mem by blast
  show ?thesis using t inv mem na u c other_domain_insert by blast
qed

section \<open>Redirect\<close>

lemma redirect_unfold:
  assumes "wellFormedCode L (redirectCode L path)" "connected w"
  shows "redirect L path ip ua w =
      (case FindOne (activeFilter (redirectCode L path) (now w)) w of
         (Found urlData, w1) \<Rightarrow>
           (case UpdateOne (\<lambda>d. ID d = ID urlData) (clickUpdate (now w1) ip ua) w1 of
              (updated, w2) \<Rightarrow>
                if \<not> validateURL L w2 (LongURL urlData)
                then (Response StatusForbidden (Text ''URL blocked for security reasons''), w2)
                else (Response StatusMovedPermanently (Text (LongURL urlData)), w2))
       | (notFound, w1) \<Rightarrow>
           (case FindOneDemo (\<lambda>d. du_ShortURL d = redirectCode L path \<and> now w1 < du_ExpiresAt d) w1 of
              (Found demoURL, w2) \<Rightarrow>
                if \<not> validateURL L w2 (du_LongURL demoURL)
                then (Response StatusForbidden (Text ''URL blocked for security reasons''), w2)
                else (Response StatusMovedPermanently (Text (du_LongURL demoURL)), w2)
            | (notFound2, w2) \<Rightarrow> (Response StatusNotFound (Text ''404 page not found''), w2)))"
proof -
  have wf: "\<not> (sanitizeInput L (trimPrefixSlash path) = [] \<or> sanitizeInput L (trimPrefixSlash path) = ''url''
    \<or> sanitizeInput L (trimPrefixSlash path) = ''analytics'' \<or> length (sanitizeInput L (trimPrefixSlash path)) > 50
              \<or> \<not> validateCustomURL L (sanitizeInput L (trimPrefixSlash path)))"
    using assms(1) by (auto simp: wellFormedCode_def redirectCode_def)
  show ?thesis
    unfolding redirect_def Let_def redirectCode_def
    by (simp only: wf assms(2) if_False not_True_eq_False not_not)
qed


lemma redirect_found:
  assumes "wellFormedCode L (redirectCode L path)" "connected w" "\<not> db_fault w (db_ops w)"
    and "find (activeFilter (redirectCode L path) (now w)) (urls w) = Some d"
  shows "redirect L path ip ua w =
     (if \<not> validateURL L w (LongURL d)
      then Response StatusForbidden (Text ''URL blocked for security reasons'')
      else Response StatusMovedPermanently (Text (LongURL d)),
      w\<lparr>db_ops := db_ops w + 2,
        urls := (if db_fault w (db_ops w + 1) then urls w
                 else update_first (\<lambda>e. ID e = ID d) (clickUpdate (now w) ip ua) (urls w))\<rparr>)"
proof -
  let ?c = "redirectCode L path"
  have f: "FindOne (activeFilter ?c (now w)) w = (Found d, w\<lparr>db_ops := db_ops w + 1\<rparr>)"
    using assms(3,4) by (simp add: FindOne_def db_step_def)
  have r: "redirect L path ip ua w =
     (case UpdateOne (\<lambda>e. ID e = ID d) (clickUpdate (now w) ip ua) (w\<lparr>db_ops := db_ops w + 1\<rparr>) of
        (updated, w2) \<Rightarrow>
          if \<not> validateURL L w2 (LongURL d)
          then (Response StatusForbidden (Text ''URL blocked for security reasons''), w2)
          else (Response StatusMovedPermanently (Text (LongURL d)), w2))"
    by (simp add: redirect_unfold [OF assms(1,2)] f)
  show ?thesis
  proof (cases "db_fault w (db_ops w + 1)")
    case True
    then have u: "UpdateOne (\<lambda>e. ID e = ID d) (clickUpdate (now w) ip ua) (w\<lparr>db_ops := db_ops w + 1\<rparr>)
                  = (False, w\<lparr>db_ops := db_ops w + 2\<rparr>)"
      by (simp add: UpdateOne_def db_step_def)
    have "validateURL L (w\<lparr>db_ops := db_ops w + 2\<rparr>) (LongURL d) = validateURL L w (LongURL d)"
      by (rule validateURL_env) simp
    with r u True show ?thesis by simp
  next
    case False
    let ?ds = "update_first (\<lambda>e. ID e = ID d) (clickUpdate (now w) ip ua) (urls w)"
    from False have u: "UpdateOne (\<lambda>e. ID e = ID d) (clickUpdate (now w) ip ua) (w\<lparr>db_ops := db_ops w + 1\<rparr>)
                  = (True, w\<lparr>db_ops := db_ops w + 2, urls := ?ds\<rparr>)"
      by (simp add: UpdateOne_def db_step_def)
    have "validateURL L (w\<lparr>db_ops := db_ops w + 2, urls := ?ds\<rparr>) (LongURL d) = validateURL L w (LongURL d)"
      by (rule validateURL_env) simp
    with r u False show ?thesis by simp
  qed
qed


lemma redirect_not_found:
  assumes "wellFormedCode L (redirectCode L path)" "connected w"
    and "db_fault w (db_ops w) \<or> find (activeFilter (redirectCode L path) (now w)) (urls w) = None"
    and "db_fault w (db_ops w + 1)
         \<or> find (\<lambda>d. du_ShortURL d = redirectCode L path \<and> now w < du_ExpiresAt d) (demo_urls w) = None"
  shows "redirect L path ip ua w
         = (Response StatusNotFound (Text ''404 page not found''), w\<lparr>db_ops := db_ops w + 2\<rparr>)"
proof -
  let ?c = "redirectCode L path"
  let ?w1 = "w\<lparr>db_ops := db_ops w + 1\<rparr>"
  have f: "FindOne (activeFilter ?c (now w)) w = (ErrOther, ?w1)
           \<or> FindOne (activeFilter ?c (now w)) w = (ErrNoDocuments, ?w1)"
    using assms(3) by (auto simp: FindOne_def db_step_def)
  have g: "FindOneDemo (\<lambda>d. du_ShortURL d = ?c \<and> now ?w1 < du_ExpiresAt d) ?w1
             = (ErrOther, w\<lparr>db_ops := db_ops w + 2\<rparr>)
           \<or> FindOneDemo (\<lambda>d. du_ShortURL d = ?c \<and> now ?w1 < du_ExpiresAt d) ?w1
             = (ErrNoDocuments, w\<lparr>db_ops := db_ops w + 2\<rparr>)"
    using assms(4) by (auto simp: FindOneDemo_def db_step_def)
  from f g show ?thesis
    by (auto simp: redirect_unfold [OF assms(1,2)])
qed

lemma update_first_distinct:
  "distinct (map ID ds) \<Longrightarrow> d \<in> set ds \<Longrightarrow>
   update_first (\<lambda>e. ID e = ID d) upd ds = map (\<lambda>e. if e = d then upd e else e) ds"
proof (induction ds)
  case Nil
  then show ?case by simp
next
  case (Cons x xs)
  show ?case
  proof (cases "x = d")
    case True
    then have "\<forall>e\<in>set xs. e \<noteq> d" using Cons.prems by auto
    then have "map (\<lambda>e. if e = d then upd e else e) xs = xs" by (simp add: map_idI)
    with True show ?thesis by simp
  next
    case False
    then have "d \<in> set xs" "ID x \<noteq> ID d" using Cons.prems by auto
    with Cons False show ?thesis by simp
  qed
qed

lemma sanitize_localCode: "sanitizeInput testLib ''b234FgPioX'' = ''b234FgPioX''"
  by (simp add: sanitize_testLib url_eval)

lemma not_validate_localApp: "ALLOW_LOCALHOST w = [] \<Longrightarrow> \<not> validateURL testLib w localApp"
  by (simp add: validateURL_def lib_simps url_eval)

lemma wellFormed_localCode: "wellFormedCode testLib ''b234FgPioX''"
  by (simp add: wellFormedCode_def validateCustomURL_def customChar_def lib_simps)

lemma redirectCode_local: "redirectCode testLib ''/b234FgPioX'' = ''b234FgPioX''"
  by (simp add: redirectCode_def trimPrefixSlash_def sanitize_localCode)

lemma blocked_find:
  "find (activeFilter ''b234FgPioX'' (now blockedWorld)) (urls blockedWorld) = Some localLink"
  by (simp add: blockedWorld_def emptyWorld_def localLink_def activeFilter_def exampleNow_def)



lemma redirectCode_missing: "redirectCode testLib ''/zzz'' = ''zzz''"
  by (simp add: redirectCode_def trimPrefixSlash_def sanitize_testLib url_eval)

lemma wellFormed_missing: "wellFormedCode testLib ''zzz''"
  by (simp add: wellFormedCode_def validateCustomURL_def customChar_def lib_simps)



section \<open>Bulk creation\<close>

lemma NewObjectID_frame: "NewObjectID w = (oid, w1) \<Longrightarrow> frame w w1"
  by (auto simp: NewObjectID_def frame_def sameEnv_def)

lemma generateShortCodeForBulk_frame:
  "generateShortCodeForBulk L u alias w = (r, w1) \<Longrightarrow> frame w w1"
  by (auto simp: generateShortCodeForBulk_def split: if_splits prod.splits findres.splits
      dest: FindOne_frame generateReadableCode_frame)

lemma sameEnv_refl [simp]: "sameEnv w w" by (simp add: sameEnv_def)

lemma processSingleURL_cases:
  assumes "processSingleURL L row uid w = (res, w')"
  shows "(res = None \<and> w' = w \<and> \<not> connected w)
         \<or> (\<exists>r. res = Some r \<and> br_LongURL r = bq_LongURL row
               \<and> sameEnv w w' \<and> demo_urls w' = demo_urls w
               \<and> (urls w' = urls w
                   \<or> (\<exists>d. urls w' = urls w @ [d] \<and> Clicks d = 0 \<and> ClickHistory d = []
                          \<and> indexes_admit d (urls w) \<and> br_Success r)))"
proof (cases "validateURL L w (bq_LongURL row)")
  case False
  with assms show ?thesis by (auto simp: processSingleURL_def Let_def)
next
  case v: True
  show ?thesis
  proof (cases "connected w")
    case False
    with assms v show ?thesis by (auto simp: processSingleURL_def Let_def)
  next
    case c: True
    let ?flt = "existingFilter (bq_LongURL row) (bulkDomainOf w row) uid"
    obtain f w1 where f: "FindOne ?flt w = (f, w1)" by (cases "FindOne ?flt w")
    note fr1 = FindOne_frame [OF f]
    show ?thesis
    proof (cases "\<exists>e. f = Found e")
      case True
      with assms v c f fr1 show ?thesis
        unfolding processSingleURL_def Let_def bulkDomainOf_def
        by (auto simp: frame_def)
    next
      case nf: False
      obtain g w2 where g: "generateShortCodeForBulk L (bq_LongURL row) (bq_CustomAlias row) w1 = (g, w2)"
        by (cases "generateShortCodeForBulk L (bq_LongURL row) (bq_CustomAlias row) w1")
      note fr2 = generateShortCodeForBulk_frame [OF g]
      have fr: "frame w w2" using fr1 fr2 by (rule frame_trans)
      show ?thesis
      proof (cases g)
        case (Inl err)
        with assms v c f nf g fr show ?thesis
          unfolding processSingleURL_def Let_def bulkDomainOf_def
          by (cases f) (auto simp: frame_def)
      next
        case (Inr shortCode)
        let ?e = "if bq_Expires row \<noteq> []
                   then (case parseRFC3339 L (bq_Expires row) of
                           Some t \<Rightarrow> Inr (Some t)
                         | None \<Rightarrow>
                            (case parseDate L (bq_Expires row) of
                               Some t \<Rightarrow> Inr (Some (endOfDay L t))
                             | None \<Rightarrow> Inl ()))
                   else Inr (Some (addYears L (now w2) 5))"
        show ?thesis
        proof (cases ?e)
          case (Inl a)
          with assms v c f nf g Inr fr show ?thesis
            unfolding processSingleURL_def Let_def bulkDomainOf_def
            by (cases f) (auto simp: frame_def)
        next
          case ex: (Inr expiresAt)
          obtain oid w3 where n: "NewObjectID w2 = (oid, w3)" by (cases "NewObjectID w2")
          note fr3 = NewObjectID_frame [OF n]
          let ?tags = "if length (bq_Tags row) > 0 then sanitizeStringSlice L (bq_Tags row) else bq_Tags row"
          let ?u = "\<lparr>ID = oid, ShortURL = shortCode, LongURL = bq_LongURL row,
                                 Domain = bulkDomainOf w row, Tags = ?tags, UserID = uid,
                                 CreatedAt = now w3, ExpiresAt = expiresAt, Clicks = 0,
                                 IsActive = True, LastClicked = None, ClickHistory = []\<rparr>"
          obtain i w4 where i: "InsertOne ?u w3 = (i, w4)" by (cases "InsertOne ?u w3")
          have fr': "frame w w3" using fr fr3 by (rule frame_trans)
          show ?thesis
          proof (cases i)
            case None
            with assms v c f nf g Inr ex n i InsertOne_None [of ?u w3 w4] fr' show ?thesis
              unfolding processSingleURL_def Let_def bulkDomainOf_def
              by (cases f) (auto simp: frame_def sameEnv_def)
          next
            case (Some oid')
            from InsertOne_Some [of ?u w3 oid' w4] i Some
            have ins: "sameEnv w3 w4" "demo_urls w4 = demo_urls w3"
              "urls w4 = urls w3 @ [?u\<lparr>ID := oid'\<rparr>]" "indexes_admit (?u\<lparr>ID := oid'\<rparr>) (urls w3)"
              by simp_all
            have "\<exists>r. res = Some r \<and> br_LongURL r = bq_LongURL row \<and> br_Success r \<and> w' = w4"
              using assms v c f nf g Inr ex n i Some
              unfolding processSingleURL_def Let_def bulkDomainOf_def
              by (cases f) auto
            then show ?thesis using ins fr'
              by (auto simp: frame_def sameEnv_def)
          qed
        qed
      qed
    qed
  qed
qed


lemma processSingleURL_connected:
  assumes "connected w"
  shows "\<exists>r w'. processSingleURL L row uid w = (Some r, w') \<and> connected w'"
proof -
  obtain res w' where p: "processSingleURL L row uid w = (res, w')"
    by (cases "processSingleURL L row uid w")
  from processSingleURL_cases [OF p] assms show ?thesis
    using p by (auto simp: sameEnv_def)
qed

lemma workers_total:
  "connected w \<Longrightarrow> \<exists>st' w'. workers L order rows uid st w = (Some st', w')"
proof (induction order arbitrary: st w)
  case Nil
  then show ?case by simp
next
  case (Cons index rest)
  from processSingleURL_connected [OF Cons.prems, of L "rows ! index" uid]
  obtain r w1 where p: "processSingleURL L (rows ! index) uid w = (Some r, w1)" "connected w1"
    by blast
  with Cons.IH [OF p(2)] show ?case by simp
qed

lemma workers_results:
  assumes "workers L order rows uid st w = (Some st', w')"
    and "length (results st) = length rows" and "\<forall>i\<in>set order. i < length rows"
  shows "length (results st') = length rows
         \<and> (\<forall>i. i \<notin> set order \<longrightarrow> results st' ! i = results st ! i)
         \<and> (\<forall>i\<in>set order. br_LongURL (results st' ! i) = bq_LongURL (rows ! i))
         \<and> (distinct order \<longrightarrow>
              (\<forall>i\<in>set order. \<exists>wi. fst (processSingleURL L (rows ! i) uid wi) = Some (results st' ! i)))
         \<and> successful st' + failed st' = successful st + failed st + int (length order)"
  using assms
proof (induction order arbitrary: st w)
  case Nil
  then show ?case by simp
next
  case (Cons index rest)
  obtain res w1 where p: "processSingleURL L (rows ! index) uid w = (res, w1)"
    by (cases "processSingleURL L (rows ! index) uid w")
  with Cons.prems(1) obtain r where r: "res = Some r" by (cases res) auto
  let ?st1 = "st\<lparr>results := (results st)[index := r],
                successful := (if br_Success r then successful st + 1 else successful st),
                failed := (if br_Success r then failed st else failed st + 1)\<rparr>"
  have w: "workers L rest rows uid ?st1 w1 = (Some st', w')"
    using Cons.prems(1) p r by simp
  have len: "length (results ?st1) = length rows" using Cons.prems(2) by simp
  have rng: "\<forall>i\<in>set rest. i < length rows" and idx: "index < length rows"
    using Cons.prems(3) by simp_all
  note ih = Cons.IH [OF w len rng]
  have lu: "br_LongURL r = bq_LongURL (rows ! index)"
    using processSingleURL_cases [OF p] r by auto
  have r1: "results ?st1 ! index = r" using idx Cons.prems(2) by simp
  have a: "length (results st') = length rows" using ih by blast
  have b: "\<forall>i. i \<notin> set (index # rest) \<longrightarrow> results st' ! i = results st ! i"
    using ih by auto
  have c: "\<forall>i\<in>set (index # rest). br_LongURL (results st' ! i) = bq_LongURL (rows ! i)"
  proof
    fix i assume i: "i \<in> set (index # rest)"
    show "br_LongURL (results st' ! i) = bq_LongURL (rows ! i)"
    proof (cases "i \<in> set rest")
      case True
      with ih show ?thesis by blast
    next
      case False
      with i have "i = index" by simp
      moreover have "results st' ! index = results ?st1 ! index" using ih False \<open>i = index\<close> by blast
      ultimately show ?thesis using r1 lu by simp
    qed
  qed
  have d: "distinct (index # rest) \<longrightarrow>
              (\<forall>i\<in>set (index # rest). \<exists>wi. fst (processSingleURL L (rows ! i) uid wi) = Some (results st' ! i))"
  proof (intro impI ballI)
    fix i assume di: "distinct (index # rest)" and i: "i \<in> set (index # rest)"
    show "\<exists>wi. fst (processSingleURL L (rows ! i) uid wi) = Some (results st' ! i)"
    proof (cases "i \<in> set rest")
      case True
      with ih di show ?thesis by simp
    next
      case False
      with i have e: "i = index" by simp
      then have "results st' ! index = results ?st1 ! index" using ih False by blast
      then have "fst (processSingleURL L (rows ! index) uid w) = Some (results st' ! index)"
        using p r r1 by simp
      with e show ?thesis by blast
    qed
  qed
  have e: "successful st' + failed st' = successful st + failed st + int (length (index # rest))"
    using ih by (auto split: if_splits)
  from a b c d e show ?case by blast
qed

lemma base_exampleOrg: "base58Code testLib exampleOrg = ''XPduT8Aqhr''"
  by (simp add: base58Code_def lib_simps testSha256_def setBytes_def encodeBase58_def
        encodeLoop.simps padBase58.simps base58Alphabet_def exampleOrg_def exampleCom_def)

lemma batch_eval:
  "processBulkFile testLib [1, 0] (Some exampleBatch) ''u1'' emptyWorld
   = (BulkOK \<lparr>TotalProcessed = 2, Successful = 2, Failed = 0,
        Results = [\<lparr>br_LongURL = exampleCom, br_ShortURL = ''3gU4BdRtKh'', br_Domain = rapidLink,
                     br_Tags = [], br_Success = True, br_Error = [],
                     br_CreatedAt = ''2025-11-01T12:26:40Z''\<rparr>,
                   \<lparr>br_LongURL = exampleOrg, br_ShortURL = ''XPduT8Aqhr'', br_Domain = rapidLink,
                     br_Tags = [], br_Success = True, br_Error = [],
                     br_CreatedAt = ''2025-11-01T12:26:40Z''\<rparr>]\<rparr>,
      snd (processBulkFile testLib [1, 0] (Some exampleBatch) ''u1'' emptyWorld))"
  by (simp add: processBulkFile_def maxURLsPerBatch_def exampleBatch_def zeroResult_def
      processSingleURL_def generateShortCodeForBulk_def Let_def exampleRow_def orgRow_def
      ex_eval name_defs validate_exampleOrg [unfolded exampleOrg_def]
      base_exampleOrg [unfolded exampleOrg_def]
      emptyWorld_def generateReadableCode_def
      store_eval existingFilter_def lib_simps hour_def
      base58Alphabet_def numeral_2_eq_2)

text \<open>
  Claim C7. Whatever order the workers take the rows in (any list \<open>order\<close> that holds
  every index exactly once), a response of \<open>processBulkFile\<close> has exactly one result for
  each row, \<open>results[i]\<close> is the result \<open>processSingleURL\<close> returns for \<open>rows[i]\<close> in some
  state of the store and carries the long URL of \<open>rows[i]\<close>, and the two counters add up
  to the number of rows. With a database, a batch of 1 to 1000 rows always gets a
  response. A worker writes the result at its own index only.
\<close>

theorem processBulkFile_positional:
  "(processBulkFile L order (Some rows) uid w = (BulkOK resp, w')
      \<and> set order = {..<length rows} \<and> distinct order
    \<longrightarrow> length (Results resp) = length rows \<and> TotalProcessed resp = int (length rows)
        \<and> (\<forall>i<length rows.
              br_LongURL (Results resp ! i) = bq_LongURL (rows ! i)
              \<and> (\<exists>wi. fst (processSingleURL L (rows ! i) uid wi) = Some (Results resp ! i)))
        \<and> Successful resp + Failed resp = int (length rows))
   \<and> (connected w \<and> 0 < length rows \<and> length rows \<le> 1000
    \<longrightarrow> (\<exists>resp w'. processBulkFile L order (Some rows) uid w = (BulkOK resp, w')))
   \<and> (workers L taken rows uid st w0 = (Some st', w'') \<and> length (results st) = length rows
       \<and> (\<forall>i\<in>set taken. i < length rows)
    \<longrightarrow> length (results st') = length (results st)
        \<and> (\<forall>i. i \<notin> set taken \<longrightarrow> results st' ! i = results st ! i))"
proof -
  let ?st0 = "\<lparr>results = replicate (length rows) zeroResult, successful = 0, failed = 0\<rparr>"
  have a: "processBulkFile L order (Some rows) uid w = (BulkOK resp, w')
      \<and> set order = {..<length rows} \<and> distinct order
    \<longrightarrow> length (Results resp) = length rows \<and> TotalProcessed resp = int (length rows)
        \<and> (\<forall>i<length rows.
              br_LongURL (Results resp ! i) = bq_LongURL (rows ! i)
              \<and> (\<exists>wi. fst (processSingleURL L (rows ! i) uid wi) = Some (Results resp ! i)))
        \<and> Successful resp + Failed resp = int (length rows)"
  proof
    assume h: "processBulkFile L order (Some rows) uid w = (BulkOK resp, w')
      \<and> set order = {..<length rows} \<and> distinct order"
    then obtain st' where wk: "workers L order rows uid ?st0 w = (Some st', w')"
      and resp: "resp = \<lparr>TotalProcessed = int (length rows), Successful = successful st',
                        Failed = failed st', Results = results st'\<rparr>"
      by (auto simp: processBulkFile_def split: if_splits prod.splits option.splits)
    have len0: "length (results ?st0) = length rows" by simp
    have rng: "\<forall>i\<in>set order. i < length rows" using h by auto
    note wr = workers_results [OF wk len0 rng]
    have "length order = length rows" using h distinct_card [of order] by simp
    with wr h resp show "length (Results resp) = length rows \<and> TotalProcessed resp = int (length rows)
        \<and> (\<forall>i<length rows.
              br_LongURL (Results resp ! i) = bq_LongURL (rows ! i)
              \<and> (\<exists>wi. fst (processSingleURL L (rows ! i) uid wi) = Some (Results resp ! i)))
        \<and> Successful resp + Failed resp = int (length rows)"
      by auto
  qed
  have b: "connected w \<and> 0 < length rows \<and> length rows \<le> 1000
    \<longrightarrow> (\<exists>resp w'. processBulkFile L order (Some rows) uid w = (BulkOK resp, w'))"
  proof
    assume h: "connected w \<and> 0 < length rows \<and> length rows \<le> 1000"
    then obtain st' w' where "workers L order rows uid ?st0 w = (Some st', w')"
      using workers_total by blast
    with h show "\<exists>resp w'. processBulkFile L order (Some rows) uid w = (BulkOK resp, w')"
      by (simp add: processBulkFile_def maxURLsPerBatch_def)
  qed
  have c: "workers L taken rows uid st w0 = (Some st', w'') \<and> length (results st) = length rows
       \<and> (\<forall>i\<in>set taken. i < length rows)
    \<longrightarrow> length (results st') = length (results st)
        \<and> (\<forall>i. i \<notin> set taken \<longrightarrow> results st' ! i = results st ! i)"
    using workers_results [of L taken rows uid st w0 st' w''] by auto
  from a b c show ?thesis by (intro conjI)
qed


lemma one_worker_eval:
  "workers testLib [1] exampleBatch ''u1''
        \<lparr>results = replicate 2 zeroResult, successful = 0, failed = 0\<rparr> emptyWorld
   = (Some \<lparr>results = [zeroResult,
                        \<lparr>br_LongURL = exampleOrg, br_ShortURL = ''XPduT8Aqhr'', br_Domain = rapidLink,
                         br_Tags = [], br_Success = True, br_Error = [],
                         br_CreatedAt = ''2025-11-01T12:26:40Z''\<rparr>],
            successful = 1, failed = 0\<rparr>,
      snd (workers testLib [1] exampleBatch ''u1''
        \<lparr>results = replicate 2 zeroResult, successful = 0, failed = 0\<rparr> emptyWorld))"
  by (simp add: exampleBatch_def
      processSingleURL_def generateShortCodeForBulk_def Let_def exampleRow_def orgRow_def
      ex_eval name_defs validate_exampleOrg [unfolded exampleOrg_def]
      base_exampleOrg [unfolded exampleOrg_def]
      emptyWorld_def generateReadableCode_def
      store_eval existingFilter_def lib_simps hour_def
      base58Alphabet_def numeral_2_eq_2)

theorem processBulkFile_positional_witness:
  "set [1, 0] = {..<length exampleBatch} \<and> distinct [1, 0 :: nat]
   \<and> connected emptyWorld \<and> 0 < length exampleBatch \<and> length exampleBatch \<le> 1000
   \<and> processBulkFile testLib [1, 0] (Some exampleBatch) ''u1'' emptyWorld
       = (BulkOK \<lparr>TotalProcessed = 2, Successful = 2, Failed = 0,
            Results = [\<lparr>br_LongURL = exampleCom, br_ShortURL = ''3gU4BdRtKh'', br_Domain = rapidLink,
                         br_Tags = [], br_Success = True, br_Error = [],
                         br_CreatedAt = ''2025-11-01T12:26:40Z''\<rparr>,
                       \<lparr>br_LongURL = exampleOrg, br_ShortURL = ''XPduT8Aqhr'', br_Domain = rapidLink,
                         br_Tags = [], br_Success = True, br_Error = [],
                         br_CreatedAt = ''2025-11-01T12:26:40Z''\<rparr>]\<rparr>,
          snd (processBulkFile testLib [1, 0] (Some exampleBatch) ''u1'' emptyWorld))
   \<and> map bq_LongURL exampleBatch = [exampleCom, exampleOrg]
   \<and> workers testLib [1] exampleBatch ''u1''
        \<lparr>results = replicate 2 zeroResult, successful = 0, failed = 0\<rparr> emptyWorld
       = (Some \<lparr>results = [zeroResult,
                        \<lparr>br_LongURL = exampleOrg, br_ShortURL = ''XPduT8Aqhr'', br_Domain = rapidLink,
                         br_Tags = [], br_Success = True, br_Error = [],
                         br_CreatedAt = ''2025-11-01T12:26:40Z''\<rparr>],
            successful = 1, failed = 0\<rparr>,
          snd (workers testLib [1] exampleBatch ''u1''
            \<lparr>results = replicate 2 zeroResult, successful = 0, failed = 0\<rparr> emptyWorld))
   \<and> map br_LongURL
         [\<lparr>br_LongURL = exampleCom, br_ShortURL = ''3gU4BdRtKh'', br_Domain = rapidLink,
           br_Tags = [], br_Success = True, br_Error = [],
           br_CreatedAt = ''2025-11-01T12:26:40Z''\<rparr>,
          \<lparr>br_LongURL = exampleOrg, br_ShortURL = ''XPduT8Aqhr'', br_Domain = rapidLink,
           br_Tags = [], br_Success = True, br_Error = [],
           br_CreatedAt = ''2025-11-01T12:26:40Z''\<rparr>]
       = map bq_LongURL exampleBatch"
proof -
  have o: "set [1, 0] = {..<length exampleBatch}" "distinct [1, 0 :: nat]"
    "0 < length exampleBatch" "length exampleBatch \<le> 1000"
    by (auto simp: exampleBatch_def)
  have co: "connected emptyWorld" by (simp add: emptyWorld_def)
  have m: "map bq_LongURL exampleBatch = [exampleCom, exampleOrg]"
    by (simp add: exampleBatch_def exampleRow_def orgRow_def)
  let ?resp = "\<lparr>TotalProcessed = 2, Successful = 2, Failed = 0,
            Results = [\<lparr>br_LongURL = exampleCom, br_ShortURL = ''3gU4BdRtKh'', br_Domain = rapidLink,
                         br_Tags = [], br_Success = True, br_Error = [],
                         br_CreatedAt = ''2025-11-01T12:26:40Z''\<rparr>,
                       \<lparr>br_LongURL = exampleOrg, br_ShortURL = ''XPduT8Aqhr'', br_Domain = rapidLink,
                         br_Tags = [], br_Success = True, br_Error = [],
                         br_CreatedAt = ''2025-11-01T12:26:40Z''\<rparr>]\<rparr>"
  let ?st0 = "\<lparr>results = replicate 2 zeroResult, successful = 0, failed = 0\<rparr>"
  note t = processBulkFile_positional [of testLib "[1, 0]" exampleBatch "''u1''" emptyWorld
      ?resp "snd (processBulkFile testLib [1, 0] (Some exampleBatch) ''u1'' emptyWorld)"
      "[1]" ?st0 emptyWorld
      "\<lparr>results = [zeroResult,
                        \<lparr>br_LongURL = exampleOrg, br_ShortURL = ''XPduT8Aqhr'', br_Domain = rapidLink,
                         br_Tags = [], br_Success = True, br_Error = [],
                         br_CreatedAt = ''2025-11-01T12:26:40Z''\<rparr>],
            successful = 1, failed = 0\<rparr>"
      "snd (workers testLib [1] exampleBatch ''u1'' ?st0 emptyWorld)"]
  have pos: "\<forall>i<length exampleBatch.
         br_LongURL (Results ?resp ! i) = bq_LongURL (exampleBatch ! i)"
    using t batch_eval o by blast
  have len: "length (Results ?resp) = length exampleBatch"
    using t batch_eval o by blast
  have "map br_LongURL (Results ?resp) = map bq_LongURL exampleBatch"
  proof (rule nth_equalityI)
    show "length (map br_LongURL (Results ?resp)) = length (map bq_LongURL exampleBatch)"
      using len by simp
    fix i assume "i < length (map br_LongURL (Results ?resp))"
    then have "i < length exampleBatch" using len by simp
    then show "map br_LongURL (Results ?resp) ! i = map bq_LongURL exampleBatch ! i"
      using pos len by (simp only: nth_map)
  qed
  then show ?thesis using o co m one_worker_eval batch_eval by simp
qed

section \<open>The demo shortener\<close>

lemma sessionCap_iff: "sessionCap ds \<longleftrightarrow> (\<forall>sid. sessionCount sid ds \<le> 5)"
proof
  assume c: "sessionCap ds"
  show "\<forall>sid. sessionCount sid ds \<le> 5"
  proof
    fix sid
    show "sessionCount sid ds \<le> 5"
    proof (cases "\<exists>d\<in>set ds. du_SessionID d = sid")
      case True
      with c show ?thesis by (auto simp: sessionCap_def list_all_iff)
    next
      case False
      then have "filter (\<lambda>d. du_SessionID d = sid) ds = []" by (auto simp: filter_empty_conv)
      then show ?thesis by (simp add: sessionCount_def)
    qed
  qed
next
  assume "\<forall>sid. sessionCount sid ds \<le> 5"
  then show "sessionCap ds" by (simp add: sessionCap_def list_all_iff)
qed

lemma sessionCap_snoc:
  assumes "sessionCap ds" "sessionCount (du_SessionID d) ds < 5"
  shows "sessionCap (ds @ [d])"
proof -
  have "sessionCount sid (ds @ [d]) \<le> 5" for sid
    using assms sessionCap_iff [of ds] by (cases "du_SessionID d = sid") (auto simp: sessionCount_def)
  then show ?thesis by (simp add: sessionCap_iff)
qed

lemma sessionCap_filter: "sessionCap ds \<Longrightarrow> sessionCap (filter P ds)"
proof -
  assume c: "sessionCap ds"
  have "sessionCount sid (filter P ds) \<le> sessionCount sid ds" for sid
  proof -
    have "filter (\<lambda>d. du_SessionID d = sid) (filter P ds)
          = filter P (filter (\<lambda>d. du_SessionID d = sid) ds)" by (auto simp: conj_commute)
    then have "sessionCount sid (filter P ds)
               = length (filter P (filter (\<lambda>d. du_SessionID d = sid) ds))"
      by (simp only: sessionCount_def)
    also have "\<dots> \<le> length (filter (\<lambda>d. du_SessionID d = sid) ds)" by (rule length_filter_le)
    finally show ?thesis by (simp only: sessionCount_def)
  qed
  with c show ?thesis using sessionCap_iff by (meson le_trans)
qed

lemma rapidLinkDemo_cases:
  assumes "rapidLinkDemo L cookie decoded w = (r, w')"
  shows "urls w' = urls w \<and> sameEnv w w'
         \<and> (demo_urls w' = demo_urls w
             \<or> (\<exists>d. demo_urls w' = demo_urls w @ [d] \<and> du_SessionID d = sessionOf L cookie w
                    \<and> sessionCount (sessionOf L cookie w) (demo_urls w) < 5
                    \<and> (\<exists>d0. r = Response StatusOK (JSONDemo d0))))"
proof -
  let ?sid = "sessionOf L cookie w"
  define w0 where "w0 = (case cookie of None \<Rightarrow> w\<lparr>next_oid := next_oid w + 1\<rparr>
                         | Some v \<Rightarrow> if v = [] then w\<lparr>next_oid := next_oid w + 1\<rparr> else w)"
  have s: "(case cookie of
              None \<Rightarrow> (case NewObjectID w of (oid, w0) \<Rightarrow> (hexOfObjectID L oid, w0))
            | Some v \<Rightarrow> if v = [] then (case NewObjectID w of (oid, w0) \<Rightarrow> (hexOfObjectID L oid, w0))
                        else (v, w)) = (?sid, w0)"
    by (simp add: w0_def sessionOf_def NewObjectID_def split: option.splits)
  have fr0: "frame w w0"
    by (simp add: w0_def frame_def sameEnv_def split: option.splits)
  show ?thesis
  proof (cases "connected w0")
    case False
    with assms s fr0 show ?thesis by (auto simp: rapidLinkDemo_def frame_def)
  next
    case c: True
    obtain cnt w1 where cd: "CountDocumentsDemo (\<lambda>d. du_SessionID d = ?sid) w0 = (cnt, w1)"
      by (cases "CountDocumentsDemo (\<lambda>d. du_SessionID d = ?sid) w0")
    have fr1: "frame w0 w1" using cd
      by (auto simp: CountDocumentsDemo_def db_step_def frame_def sameEnv_def split: if_splits)
    have fr01: "frame w w1" using fr0 fr1 by (rule frame_trans)
    show ?thesis
    proof (cases cnt)
      case None
      with assms s c cd fr01 show ?thesis by (auto simp: rapidLinkDemo_def frame_def)
    next
      case (Some n)
      then have n: "n = sessionCount ?sid (demo_urls w)"
        using cd fr0 by (auto simp: CountDocumentsDemo_def db_step_def sessionCount_def frame_def
            split: if_splits)
      show ?thesis
      proof (cases "n \<ge> 5")
        case True
        with assms s c cd Some fr01 show ?thesis by (auto simp: rapidLinkDemo_def frame_def)
      next
        case lt: False
        show ?thesis
        proof (cases decoded)
          case None
          with assms s c cd Some lt fr01 show ?thesis by (auto simp: rapidLinkDemo_def frame_def)
        next
          case (Some req)
          obtain code w2 where g: "generateReadableCode L (dq_LongURL req) w1 = (code, w2)"
            by (cases "generateReadableCode L (dq_LongURL req) w1")
          note fr2 = generateReadableCode_frame [OF g]
          have fr02: "frame w w2" using fr01 fr2 by (rule frame_trans)
          let ?d = "\<lparr>du_ID = 0, du_ShortURL = code, du_LongURL = dq_LongURL req,
                                du_Domain = dq_Domain req, du_CreatedAt = now w2,
                                du_ExpiresAt = now w2 + hour, du_SessionID = ?sid\<rparr>"
          obtain i w3 where i: "InsertOneDemo ?d w2 = (i, w3)" by (cases "InsertOneDemo ?d w2")
          have ins: "urls w3 = urls w2 \<and> sameEnv w2 w3
                     \<and> (case i of None \<Rightarrow> demo_urls w3 = demo_urls w2
                         | Some oid \<Rightarrow> demo_urls w3 = demo_urls w2 @ [?d\<lparr>du_ID := oid\<rparr>])"
            using i by (auto simp: InsertOneDemo_def db_step_def NewObjectID_def sameEnv_def
                split: if_splits prod.splits)
          have res: "(case i of None \<Rightarrow> (Response StatusInternalServerError (Text ''Database error''), w3)
                               | Some oid \<Rightarrow> (Response StatusOK (JSONDemo ?d), w3)) = (r, w')"
            using assms s c cd \<open>cnt = Some n\<close> lt Some g i
            by (simp add: rapidLinkDemo_def Let_def)
          show ?thesis
          proof (cases i)
            case None
            with res ins fr02 show ?thesis by (auto simp: frame_def sameEnv_def)
          next
            case (Some oid)
            with res ins fr02 n lt show ?thesis
              by (auto simp: frame_def sameEnv_def)
          qed
        qed
      qed
    qed
  qed
qed


lemma rapidLinkDemo_refused:
  assumes "connected w" "\<not> db_fault w (db_ops w)"
    and "5 \<le> sessionCount (sessionOf L cookie w) (demo_urls w)"
  shows "fst (rapidLinkDemo L cookie decoded w)
           = Response StatusForbidden
               (Text ''Demo limit reached. Please sign up to create more short URLs.'')
         \<and> demo_urls (snd (rapidLinkDemo L cookie decoded w)) = demo_urls w"
proof -
  let ?sid = "sessionOf L cookie w"
  define w0 where "w0 = (case cookie of None \<Rightarrow> w\<lparr>next_oid := next_oid w + 1\<rparr>
                         | Some v \<Rightarrow> if v = [] then w\<lparr>next_oid := next_oid w + 1\<rparr> else w)"
  have s: "(case cookie of
              None \<Rightarrow> (case NewObjectID w of (oid, w0) \<Rightarrow> (hexOfObjectID L oid, w0))
            | Some v \<Rightarrow> if v = [] then (case NewObjectID w of (oid, w0) \<Rightarrow> (hexOfObjectID L oid, w0))
                        else (v, w)) = (?sid, w0)"
    by (simp add: w0_def sessionOf_def NewObjectID_def split: option.splits)
  have w0: "connected w0" "db_fault w0 (db_ops w0) = db_fault w (db_ops w)" "demo_urls w0 = demo_urls w"
    using assms(1) by (simp_all add: w0_def split: option.splits)
  have cd: "CountDocumentsDemo (\<lambda>d. du_SessionID d = ?sid) w0
            = (Some (sessionCount ?sid (demo_urls w)), w0\<lparr>db_ops := db_ops w0 + 1\<rparr>)"
    using assms(2) w0 by (simp add: CountDocumentsDemo_def db_step_def sessionCount_def)
  show ?thesis
    using assms(3) w0 by (simp add: rapidLinkDemo_def s cd)
qed

lemma demoRequests_cap:
  "sessionCap (demo_urls w) \<Longrightarrow> sessionCap (demo_urls (demoRequests L reqs w))"
proof (induction reqs arbitrary: w)
  case Nil
  then show ?case by simp
next
  case (Cons q reqs)
  obtain cookie decoded where q: "q = (cookie, decoded)" by (cases q)
  obtain r w' where p: "rapidLinkDemo L cookie decoded w = (r, w')"
    by (cases "rapidLinkDemo L cookie decoded w")
  from rapidLinkDemo_cases [OF p] Cons.prems have "sessionCap (demo_urls w')"
    using sessionCap_snoc [of "demo_urls w"] by auto
  with Cons.IH [of w'] q p show ?case by simp
qed


lemma demo_first_eval:
  "demo_urls (snd (rapidLinkDemo testLib (Some ''s1'') (Some demoRequest) emptyWorld))
   = [demoLink 1]"
  by (simp add: rapidLinkDemo_def Let_def demoRequest_def demoLink_def emptyWorld_def
      CountDocumentsDemo_def InsertOneDemo_def generateReadableCode_def base_exampleCom
      store_eval hour_def exampleNow_def)


section \<open>Click accounting\<close>

lemma clickUpdate_consistent:
  "Clicks d = int (length (ClickHistory d))
   \<Longrightarrow> Clicks (clickUpdate t ip ua d) = int (length (ClickHistory (clickUpdate t ip ua d)))"
  by (simp add: clickUpdate_def)

lemma update_first_consistent:
  "clicksConsistent ds \<Longrightarrow> clicksConsistent (update_first flt (clickUpdate t ip ua) ds)"
  by (induction ds) (auto simp: clicksConsistent_def clickUpdate_def)

lemma applyWrite_consistent:
  "clicksConsistent ds \<Longrightarrow> freshWrite u \<Longrightarrow> clicksConsistent (applyWrite u ds)"
proof (cases u)
  case (InsertLink d)
  assume "clicksConsistent ds" "freshWrite u"
  with InsertLink show ?thesis by (simp add: clicksConsistent_def)
next
  case (ClickLink oid t ip ua)
  assume "clicksConsistent ds"
  with ClickLink show ?thesis by (simp add: update_first_consistent)
next
  case (SweepExpired t)
  assume "clicksConsistent ds"
  with SweepExpired show ?thesis by (auto simp: clicksConsistent_def list_all_iff)
qed

lemma applyWrites_consistent:
  "clicksConsistent ds \<Longrightarrow> list_all freshWrite us \<Longrightarrow> clicksConsistent (applyWrites us ds)"
  by (induction us arbitrary: ds) (simp_all add: applyWrite_consistent)

lemma applyWrites_append: "applyWrites (us @ vs) ds = applyWrites vs (applyWrites us ds)"
  by (induction us arbitrary: ds) simp_all

lemma clickUpdate_ID [simp]: "ID (clickUpdate t ip ua d) = ID d"
  by (simp add: clickUpdate_def)

lemma find_id_update_first:
  "find (\<lambda>e. ID e = oid) (update_first (\<lambda>e. ID e = i) (clickUpdate t ip ua) ds)
   = (if i = oid then map_option (clickUpdate t ip ua) (find (\<lambda>e. ID e = oid) ds)
      else find (\<lambda>e. ID e = oid) ds)"
  by (induction ds) auto

lemma find_id_sweep:
  "find (\<lambda>e. ID e = oid) (map (\<lambda>d. if flt d then d\<lparr>IsActive := False\<rparr> else d) ds)
   = map_option (\<lambda>d. if flt d then d\<lparr>IsActive := False\<rparr> else d) (find (\<lambda>e. ID e = oid) ds)"
  by (induction ds) auto

lemma find_append_keep: "find flt ds = Some e \<Longrightarrow> find flt (ds @ xs) = Some e"
  by (induction ds) (auto split: if_splits)

lemma applyWrite_link:
  assumes "find (\<lambda>e. ID e = oid) ds = Some e"
  shows "\<exists>e'. find (\<lambda>e. ID e = oid) (applyWrite u ds) = Some e'
              \<and> Clicks e' = Clicks e + (if clickOn oid u then 1 else 0)
              \<and> length (ClickHistory e') = length (ClickHistory e) + (if clickOn oid u then 1 else 0)"
proof (cases u)
  case (InsertLink d)
  with assms show ?thesis by (simp add: find_append_keep)
next
  case (ClickLink i t ip ua)
  with assms show ?thesis by (simp add: find_id_update_first clickUpdate_def)
next
  case (SweepExpired t)
  with assms show ?thesis by (simp add: find_id_sweep)
qed

lemma applyWrites_link:
  "find (\<lambda>e. ID e = oid) ds = Some e \<Longrightarrow>
   \<exists>e'. find (\<lambda>e. ID e = oid) (applyWrites us ds) = Some e'
        \<and> Clicks e' = Clicks e + int (clicksOn oid us)
        \<and> length (ClickHistory e') = length (ClickHistory e) + clicksOn oid us"
proof (induction us arbitrary: ds e)
  case Nil
  then show ?case by (simp add: clicksOn_def)
next
  case (Cons u us)
  from applyWrite_link [OF Cons.prems, of u]
  obtain e1 where e1: "find (\<lambda>e. ID e = oid) (applyWrite u ds) = Some e1"
    "Clicks e1 = Clicks e + (if clickOn oid u then 1 else 0)"
    "length (ClickHistory e1) = length (ClickHistory e) + (if clickOn oid u then 1 else 0)"
    by blast
  from Cons.IH [OF e1(1)] obtain e' where
    "find (\<lambda>e. ID e = oid) (applyWrites us (applyWrite u ds)) = Some e'"
    "Clicks e' = Clicks e1 + int (clicksOn oid us)"
    "length (ClickHistory e') = length (ClickHistory e1) + clicksOn oid us" by blast
  with e1 show ?case by (auto simp: clicksOn_def)
qed


lemma shorten_writes:
  assumes "shorten L uid decoded w = (r, w')"
  shows "\<exists>us. list_all freshWrite us \<and> urls w' = applyWrites us (urls w)"
proof (cases decoded)
  case None
  with assms have "urls w' = applyWrites [] (urls w)" by (simp add: shorten_def)
  then show ?thesis by (intro exI [of _ "[]"]) simp
next
  case (Some req)
  with assms have sh: "shorten L uid (Some req) w = (r, w')" by simp
  from shorten_cases [OF sh]
  consider "urls w' = urls w"
    | d where "urls w' = urls w @ [d]" "indexes_admit d (urls w)" "Clicks d = 0" "ClickHistory d = []"
    by (auto simp: frame_def)
  then show ?thesis
  proof cases
    case 1
    then have "urls w' = applyWrites [] (urls w)" by simp
    then show ?thesis by (intro exI [of _ "[]"]) simp
  next
    case 2
    then have "urls w' = applyWrites [InsertLink d] (urls w)" "list_all freshWrite [InsertLink d]"
      by simp_all
    then show ?thesis by blast
  qed
qed

lemma processSingleURL_writes:
  assumes "processSingleURL L row uid w = (res, w')"
  shows "\<exists>us. list_all freshWrite us \<and> urls w' = applyWrites us (urls w)"
proof -
  from processSingleURL_cases [OF assms]
  consider "urls w' = urls w"
    | d where "urls w' = urls w @ [d]" "indexes_admit d (urls w)" "Clicks d = 0" "ClickHistory d = []"
    by auto
  then show ?thesis
  proof cases
    case 1
    then have "urls w' = applyWrites [] (urls w)" by simp
    then show ?thesis by (intro exI [of _ "[]"]) simp
  next
    case 2
    then have "urls w' = applyWrites [InsertLink d] (urls w)" "list_all freshWrite [InsertLink d]"
      by simp_all
    then show ?thesis by blast
  qed
qed

lemma workers_writes:
  "workers L order rows uid st w = (res, w')
   \<Longrightarrow> \<exists>us. list_all freshWrite us \<and> urls w' = applyWrites us (urls w)"
proof (induction order arbitrary: st w)
  case Nil
  then have "urls w' = applyWrites [] (urls w)" by simp
  then show ?case by (intro exI [of _ "[]"]) simp
next
  case (Cons index rest)
  obtain r1 w1 where p: "processSingleURL L (rows ! index) uid w = (r1, w1)"
    by (cases "processSingleURL L (rows ! index) uid w")
  from processSingleURL_writes [OF p]
  obtain us where us: "list_all freshWrite us" "urls w1 = applyWrites us (urls w)" by blast
  show ?case
  proof (cases r1)
    case None
    with Cons.prems p have "w' = w1" by simp
    with us show ?thesis by blast
  next
    case (Some result)
    with Cons.prems p obtain st1 where "workers L rest rows uid st1 w1 = (res, w')" by simp
    from Cons.IH [OF this]
    obtain vs where vs: "list_all freshWrite vs" "urls w' = applyWrites vs (urls w1)" by blast
    have "list_all freshWrite (us @ vs)" "urls w' = applyWrites (us @ vs) (urls w)"
      using us vs by (simp_all add: applyWrites_append)
    then show ?thesis by blast
  qed
qed

lemma processBulkFile_writes:
  assumes "processBulkFile L order parsed uid w = (res, w')"
  shows "\<exists>us. list_all freshWrite us \<and> urls w' = applyWrites us (urls w)"
proof -
  have triv: "\<exists>us. list_all freshWrite us \<and> urls w = applyWrites us (urls w)"
    by (intro exI [of _ "[]"]) simp
  show ?thesis
  proof (cases parsed)
    case None
    with assms have "w' = w" by (simp add: processBulkFile_def)
    with triv show ?thesis by simp
  next
    case (Some rows)
    show ?thesis
    proof (cases "length rows = 0 \<or> length rows > maxURLsPerBatch")
      case True
      with assms Some have "w' = w" by (auto simp: processBulkFile_def split: if_splits)
      with triv show ?thesis by simp
    next
      case False
      let ?st0 = "\<lparr>results = replicate (length rows) zeroResult, successful = 0, failed = 0\<rparr>"
      obtain r1 w1 where wk: "workers L order rows uid ?st0 w = (r1, w1)"
        by (cases "workers L order rows uid ?st0 w")
      with assms Some False have "w' = w1"
        by (auto simp: processBulkFile_def split: option.splits)
      with workers_writes [OF wk] show ?thesis by simp
    qed
  qed
qed

lemma redirect_writes:
  assumes "redirect L path ip ua w = (r, w')"
  shows "\<exists>us. list_all freshWrite us \<and> urls w' = applyWrites us (urls w)"
proof -
  have triv: "urls w' = urls w \<Longrightarrow> ?thesis"
    by (intro exI [of _ "[]"]) simp
  show ?thesis
  proof (cases "wellFormedCode L (redirectCode L path) \<and> connected w")
    case False
    with assms have "w' = w"
      by (auto simp: redirect_def Let_def wellFormedCode_def redirectCode_def split: if_splits)
    with triv show ?thesis by simp
  next
    case True
    let ?c = "redirectCode L path"
    obtain f w1 where f: "FindOne (activeFilter ?c (now w)) w = (f, w1)"
      by (cases "FindOne (activeFilter ?c (now w)) w")
    note fr1 = FindOne_frame [OF f]
    note ru = redirect_unfold [of L path w ip ua] assms
    show ?thesis
    proof (cases f)
      case (Found d)
      obtain u w2 where u: "UpdateOne (\<lambda>e. ID e = ID d) (clickUpdate (now w1) ip ua) w1 = (u, w2)"
        by (cases "UpdateOne (\<lambda>e. ID e = ID d) (clickUpdate (now w1) ip ua) w1")
      have "w' = w2" using ru True f Found u by (auto split: if_splits)
      moreover have "urls w2 = urls w1
                     \<or> urls w2 = applyWrites [ClickLink (ID d) (now w1) ip ua] (urls w1)"
        using u by (auto simp: UpdateOne_def db_step_def split: if_splits)
      ultimately have "urls w' = urls w
                     \<or> urls w' = applyWrites [ClickLink (ID d) (now w1) ip ua] (urls w)"
        using fr1 by (simp add: frame_def)
      then show ?thesis
      proof
        assume "urls w' = urls w"
        then show ?thesis by (rule triv)
      next
        assume "urls w' = applyWrites [ClickLink (ID d) (now w1) ip ua] (urls w)"
        moreover have "list_all freshWrite [ClickLink (ID d) (now w1) ip ua]" by simp
        ultimately show ?thesis by blast
      qed
    next
      case ErrNoDocuments
      obtain g w2 where g: "FindOneDemo (\<lambda>d. du_ShortURL d = ?c \<and> now w1 < du_ExpiresAt d) w1 = (g, w2)"
        by (cases "FindOneDemo (\<lambda>d. du_ShortURL d = ?c \<and> now w1 < du_ExpiresAt d) w1")
      have "urls w2 = urls w1" using g
        by (auto simp: FindOneDemo_def db_step_def split: if_splits option.splits)
      moreover have "w' = w2" using ru True f ErrNoDocuments g
        by (cases g) (auto split: if_splits)
      ultimately show ?thesis using fr1 triv by (simp add: frame_def)
    next
      case ErrOther
      obtain g w2 where g: "FindOneDemo (\<lambda>d. du_ShortURL d = ?c \<and> now w1 < du_ExpiresAt d) w1 = (g, w2)"
        by (cases "FindOneDemo (\<lambda>d. du_ShortURL d = ?c \<and> now w1 < du_ExpiresAt d) w1")
      have "urls w2 = urls w1" using g
        by (auto simp: FindOneDemo_def db_step_def split: if_splits option.splits)
      moreover have "w' = w2" using ru True f ErrOther g
        by (cases g) (auto split: if_splits)
      ultimately show ?thesis using fr1 triv by (simp add: frame_def)
    qed
  qed
qed

lemma cleanup_writes:
  assumes "CleanupExpiredURLs w = (r, w')"
  shows "\<exists>us. list_all freshWrite us \<and> urls w' = applyWrites us (urls w)"
proof -
  have "urls w' = applyWrites [] (urls w) \<or> urls w' = applyWrites [SweepExpired (now w)] (urls w)"
    using assms by (auto simp: CleanupExpiredURLs_def UpdateMany_def db_step_def split: if_splits)
  moreover have "list_all freshWrite []" "list_all freshWrite [SweepExpired (now w)]" by simp_all
  ultimately show ?thesis by blast
qed


lemma applyWrites_handlers_consistent:
  "clicksConsistent ds \<Longrightarrow> \<exists>us. list_all freshWrite us \<and> ds' = applyWrites us ds
   \<Longrightarrow> clicksConsistent ds'"
  using applyWrites_consistent by blast

lemma row_create_eval:
  "urls (snd (processSingleURL testLib exampleRow ''u1'' emptyWorld)) = [exampleLink]"
  by (simp add: processSingleURL_def generateShortCodeForBulk_def Let_def exampleRow_def
      exampleLink_def ex_eval name_defs emptyWorld_def generateReadableCode_def
      store_eval existingFilter_def lib_simps hour_def)



end
